theory Spec2Isabelle
  imports Complex_Main
begin

section \<open>The beattogrid web client (\<^verbatim>\<open>src/web/app.js\<close>)\<close>

text \<open>
  The client is one JavaScript file: a handful of module-level variables, references to
  DOM elements, and event handlers. The embedding keeps the variables and the DOM
  properties the handlers assign in one record, turns every handler (and every
  continuation after an \<^verbatim>\<open>await\<close> or a timer) into a function on that record, and logs what
  a handler asks of the outside world (an XMLHttpRequest, a \<^verbatim>\<open>fetch\<close>, a call on the
  WaveSurfer instance) in a list of effects.

  Finite JavaScript numbers are IEEE doubles, hence rationals; they are modelled as
  \<^typ>\<open>rat\<close>. Comparison, \<^verbatim>\<open>Math.min\<close>, \<^verbatim>\<open>Math.max\<close>, \<^verbatim>\<open>Math.floor\<close>,
  \<^verbatim>\<open>Math.round\<close>, \<^verbatim>\<open>%\<close> and \<^verbatim>\<open>toFixed\<close> are exact on doubles and are modelled as
  they are. A product or a quotient of doubles is rounded to the nearest double
  (\<open>round_double\<close>) in \<^verbatim>\<open>formatTime\<close> and in the rounding of the tempo estimate, where
  the result shown depends on it. In the zoom functions the product and the quotient
  are the exact ones: what is proved of them are the bounds that the clamps give.
\<close>

subsection \<open>The JavaScript runtime\<close>

text \<open>
  Builtins whose result is fixed by the runtime and not by this repository are taken as
  parameters: \<^verbatim>\<open>parseFloat\<close>, \<^verbatim>\<open>parseInt(_, 10)\<close>, the exponent notation that
  \<^verbatim>\<open>Number::toString\<close> uses from \<open>10^21\<close> on, and \<^verbatim>\<open>URL.createObjectURL\<close>.
\<close>

datatype jsnum = Finite rat | NaN | PosInfinity | NegInfinity

record upload_file =
  file_name :: string
  file_type :: string
  file_size :: nat

record js_runtime =
  parseFloat :: "string \<Rightarrow> jsnum"
  parseInt10 :: "string \<Rightarrow> jsnum"
  number_toString_big :: "rat \<Rightarrow> string"
  createObjectURL :: "upload_file \<Rightarrow> string"

definition digit_char :: "int \<Rightarrow> char" where
  "digit_char d =
     (if d = 0 then CHR ''0'' else if d = 1 then CHR ''1'' else if d = 2 then CHR ''2''
      else if d = 3 then CHR ''3'' else if d = 4 then CHR ''4'' else if d = 5 then CHR ''5''
      else if d = 6 then CHR ''6'' else if d = 7 then CHR ''7'' else if d = 8 then CHR ''8''
      else CHR ''9'')"

text \<open>The decimal digits of a non-negative integer, most significant first.\<close>

function int_digits :: "int \<Rightarrow> string" where
  "int_digits n =
     (if n < 10 then [digit_char n] else int_digits (n div 10) @ [digit_char (n mod 10)])"
  by pat_completeness auto
termination
  by (relation "measure nat") auto

declare int_digits.simps [simp del]

text \<open>
  \<^verbatim>\<open>Number::toString\<close> of an integral number, as \<^verbatim>\<open>mins.toString()\<close> and a template
  literal use it: decimal digits below \<open>10^21\<close>, the runtime's exponent notation above.
\<close>

definition number_toString_int :: "js_runtime \<Rightarrow> int \<Rightarrow> string" where
  "number_toString_int rt m =
     (if 10 ^ 21 \<le> \<bar>m\<bar> then
        (if m < 0 then ''-'' else '''') @ number_toString_big rt (of_int \<bar>m\<bar>)
      else if m < 0 then ''-'' @ int_digits (- m)
      else int_digits m)"

text \<open>
  \<^verbatim>\<open>Number.prototype.toFixed(f)\<close> on a finite number: the sign, then the integer \<open>n\<close>
  nearest to \<open>x * 10^f\<close> (the larger one on a tie), padded with zeros to \<open>f + 1\<close> digits
  and split \<open>f\<close> digits from the right.
\<close>

definition toFixed :: "js_runtime \<Rightarrow> nat \<Rightarrow> rat \<Rightarrow> string" where
  "toFixed rt f x =
     (let s = (if x < 0 then ''-'' else '''');
          x' = \<bar>x\<bar>
      in if 10 ^ 21 \<le> x' then s @ number_toString_big rt x'
         else
           let n = \<lfloor>x' * 10 ^ f + 1 / 2\<rfloor>;
               m = int_digits n;
               m' = (if f \<noteq> 0 then
                       (let m2 = (if length m \<le> f
                                  then replicate (f + 1 - length m) CHR ''0'' @ m else m);
                            k = length m2
                        in take (k - f) m2 @ ''.'' @ drop (k - f) m2)
                     else m)
           in s @ m')"

text \<open>\<^verbatim>\<open>String.prototype.padStart(targetLength, padString)\<close>.\<close>

definition padStart :: "nat \<Rightarrow> string \<Rightarrow> string \<Rightarrow> string" where
  "padStart targetLength padString s =
     (if targetLength \<le> length s \<or> padString = [] then s
      else let fillLen = targetLength - length s
           in take fillLen (concat (replicate fillLen padString)) @ s)"

text \<open>
  The remainder operator \<^verbatim>\<open>%\<close> on finite numbers with a non-zero divisor: the quotient
  is truncated towards zero, so the result has the sign of the dividend. On doubles the
  operator is exact.
\<close>

definition js_rem :: "rat \<Rightarrow> rat \<Rightarrow> rat" where
  "js_rem n d =
     (let q = n / d in n - d * of_int (if q < 0 then \<lceil>q\<rceil> else \<lfloor>q\<rfloor>))"

text \<open>\<^verbatim>\<open>Math.round\<close>: the nearest integer, the larger one on a tie.\<close>

definition Math_round :: "rat \<Rightarrow> int" where
  "Math_round x = \<lfloor>x + 1 / 2\<rfloor>"

subsection \<open>Rounding to a double\<close>

text \<open>
  The arithmetic operators of the language compute the exact result and round it to
  the nearest double: 53 significant bits, the unit in the last place never below
  \<open>2^-1074\<close>, a tie going to the even significand. Where that rounding reaches
  \<open>2^1024\<close> the result is an infinity (\<open>overflows\<close>); the quotient by 60 of a double
  never does.
\<close>

text \<open>The number of bits of a positive integer.\<close>

function bit_length :: "int \<Rightarrow> int" where
  "bit_length n = (if n \<le> 0 then 0 else 1 + bit_length (n div 2))"
  by pat_completeness auto
termination
  by (relation "measure nat") auto

declare bit_length.simps [simp del]

text \<open>The exponent \<open>e\<close> of a positive rational \<open>a\<close>: \<open>2^e \<le> a < 2^(e+1)\<close>.\<close>

definition floor_log2 :: "rat \<Rightarrow> int" where
  "floor_log2 a =
     (let (p, q) = quotient_of a;
          d = bit_length p - bit_length q
      in if 2 powi d \<le> a then d else d - 1)"

definition round_half_even :: "rat \<Rightarrow> int" where
  "round_half_even y =
     (let f = \<lfloor>y\<rfloor>; r = y - of_int f
      in if r < 1 / 2 then f else if 1 / 2 < r then f + 1 else if even f then f else f + 1)"

definition round_double :: "rat \<Rightarrow> rat" where
  "round_double x =
     (if x = 0 then 0
      else
        let a = \<bar>x\<bar>;
            e = max (floor_log2 a) (- 1022);
            u = 2 powi (e - 52)
        in sgn x * of_int (round_half_even (a / u)) * u)"

text \<open>A finite double is a rational that rounding leaves as it is, below \<open>2^1024\<close>.\<close>

definition is_double :: "rat \<Rightarrow> bool" where
  "is_double x \<longleftrightarrow> round_double x = x \<and> \<bar>x\<bar> < 2 ^ 1024"

text \<open>The exact result \<open>x\<close> of an operation is too large for a finite double.\<close>

definition overflows :: "rat \<Rightarrow> bool" where
  "overflows x \<longleftrightarrow> 2 ^ 1024 \<le> \<bar>round_double x\<bar>"

subsection \<open>Time formatting\<close>

definition formatTime :: "js_runtime \<Rightarrow> rat \<Rightarrow> string" where
  "formatTime rt seconds =
     (let mins = \<lfloor>round_double (seconds / 60)\<rfloor>;
          secs = toFixed rt 3 (js_rem seconds 60)
      in padStart 2 ''0'' (number_toString_int rt mins) @ '':'' @ padStart 6 ''0'' secs)"

text \<open>
  The same format in the words of the specification: a string padded on the left with
  zeros to a minimum width, and a non-negative number written with exactly three
  decimal places (its nearest multiple of \<open>1/1000\<close>).
\<close>

definition zero_pad_left :: "nat \<Rightarrow> string \<Rightarrow> string" where
  "zero_pad_left k s = replicate (k - length s) CHR ''0'' @ s"

definition three_decimals :: "rat \<Rightarrow> string" where
  "three_decimals x =
     (let n = \<lfloor>x * 1000 + 1 / 2\<rfloor>
      in int_digits (n div 1000) @ ''.'' @ zero_pad_left 3 (int_digits (n mod 1000)))"


subsection \<open>Text shown to the user\<close>

text \<open>
  Strings are byte lists here; the symbols outside ASCII that the templates contain are
  written as their UTF-8 bytes. No handler measures these strings.
\<close>

definition nl :: string where "nl = [CHR 0x0A]"
definition check_mark :: string where "check_mark = [CHR 0xE2, CHR 0x9C, CHR 0x93]"
definition warning_sign :: string where "warning_sign = [CHR 0xE2, CHR 0x9A, CHR 0xA0]"
definition high_voltage :: string where "high_voltage = [CHR 0xE2, CHR 0x9A, CHR 0xA1]"
definition bullet :: string where "bullet = [CHR 0xE2, CHR 0x80, CHR 0xA2]"
definition right_arrow :: string where "right_arrow = [CHR 0xE2, CHR 0x86, CHR 0x92]"
definition pause_symbol :: string where "pause_symbol = [CHR 0xE2, CHR 0x8F, CHR 0xB8]"
definition play_symbol :: string where "play_symbol = [CHR 0xE2, CHR 0x96, CHR 0xB6]"

definition error_html :: "string \<Rightarrow> string" where
  \<open>error_html message =
     ''<span class="text-error">'' @ warning_sign @ '' '' @ message @ ''</span>''\<close>

definition upload_success_html :: "string \<Rightarrow> string" where
  \<open>upload_success_html job =
     ''<span class="text-success">'' @ check_mark @ '' Upload successful</span> '' @ bullet
       @ '' Job: <code>'' @ job @ ''</code>''\<close>

definition analysis_html :: "string \<Rightarrow> string \<Rightarrow> string" where
  \<open>analysis_html bpm count =
     nl @ ''      <div style="display: grid; grid-template-columns: 1fr 1fr; gap: var(--spacing-lg); text-align: center;">''
     @ nl @ ''        <div>''
     @ nl @ ''          <div style="font-size: 18px; font-weight: 500; color: var(--accent-red);">''
            @ bpm @ ''</div>''
     @ nl @ ''          <div style="font-size: 11px; color: var(--text-muted); text-transform: uppercase;">BPM Detected</div>''
     @ nl @ ''        </div>''
     @ nl @ ''        <div>''
     @ nl @ ''          <div style="font-size: 18px; font-weight: 500; color: var(--accent-blue);">''
            @ count @ ''</div>''
     @ nl @ ''          <div style="font-size: 11px; color: var(--text-muted); text-transform: uppercase;">Beat Points</div>''
     @ nl @ ''        </div>''
     @ nl @ ''      </div>''
     @ nl @ ''    ''\<close>

definition anchor_html :: "string \<Rightarrow> string" where
  \<open>anchor_html time =
     ''<span class="text-success">Downbeat anchor: '' @ time
       @ ''</span> (click waveform to reposition)''\<close>

definition processing_html :: string where
  \<open>processing_html =
     nl @ ''    <span class="text-success">'' @ high_voltage @ '' Processing audio...</span><br>''
     @ nl @ ''    <span style="font-size: 10px; color: var(--text-dim);">Analyze '' @ right_arrow
          @ '' Time Warp '' @ right_arrow @ '' Export</span>''
     @ nl @ ''  ''\<close>

definition complete_html :: string where
  \<open>complete_html =
     nl @ ''      <span class="text-success">'' @ check_mark @ '' Processing complete!</span><br>''
     @ nl @ ''      <span style="font-size: 10px; color: var(--text-dim);">Your time-warped audio is ready</span>''
     @ nl @ ''    ''\<close>

subsection \<open>Requests, responses and effects\<close>

text \<open>
  The body of the process request is the JSON text of an object literal. It is kept as
  the list of its members, in order; \<^verbatim>\<open>JSON.stringify\<close> writes a number that is not
  finite as \<^verbatim>\<open>null\<close>.
\<close>

datatype jsval = JSString string | JSNumber jsnum

datatype json = JNull | JNumber rat | JString string

fun JSON_value :: "jsval \<Rightarrow> json" where
  "JSON_value (JSString s) = JString s"
| "JSON_value (JSNumber (Finite r)) = JNumber r"
| "JSON_value (JSNumber _) = JNull"

definition JSON_stringify :: "(string \<times> jsval) list \<Rightarrow> (string \<times> json) list" where
  "JSON_stringify obj = map (\<lambda>(k, v). (k, JSON_value v)) obj"

record xhr_request =
  xhr_method :: string
  xhr_url :: string
  xhr_timeout :: nat
  xhr_form_file :: upload_file

record fetch_request =
  fetch_url :: string
  fetch_method :: string
  fetch_headers :: "(string \<times> string) list"
  fetch_body :: "(string \<times> json) list"

datatype effect =
    XhrSend xhr_request
  | Fetch fetch_request
  | WsZoom rat
  | WsLoad string string
  | WsDestroy string
  | WsPlayPause

text \<open>
  Response bodies are typed by the job API: a successful upload answers with
  \<^verbatim>\<open>{job_id, bpm_estimate, beats}\<close> (and possibly members the client never reads), a
  failure with an object that may carry a \<^verbatim>\<open>detail\<close> string. \<open>None\<close> stands for a body
  that \<^verbatim>\<open>JSON.parse\<close> rejects (for a failure, also for the body \<^verbatim>\<open>null\<close>, on which
  reading \<^verbatim>\<open>detail\<close> throws inside the same \<^verbatim>\<open>try\<close>).
\<close>

record upload_response =
  data_job_id :: string
  data_bpm_estimate :: rat
  data_beats :: "rat list"
  data_other_members :: "(string \<times> string) list"

record error_body =
  detail :: "string option"

text \<open>
  What the \<^verbatim>\<open>load\<close> handler reads from the XMLHttpRequest: the status, and the parsed
  \<^verbatim>\<open>responseText\<close>, read as an upload response when the status is 2xx and as a failure
  body otherwise.
\<close>

record xhr_response =
  xhr_status :: nat
  xhr_json_data :: "upload_response option"
  xhr_json_error :: "error_body option"

text \<open>
  How the promise of \<^verbatim>\<open>fetch\<close> and the following \<^verbatim>\<open>res.json()\<close> end: the fetch
  rejects with a message, or answers with a status and a body whose parse either rejects
  with a message or yields the failure body.
\<close>

datatype fetch_outcome =
    FetchRejected string
  | FetchResponse nat "string + error_body"

text \<open>The \<^verbatim>\<open>ok\<close> flag of a Response: the status is in the range 200 to 299.\<close>

definition res_ok :: "nat \<Rightarrow> bool" where
  "res_ok status \<longleftrightarrow> 200 \<le> status \<and> status \<le> 299"

text \<open>\<^verbatim>\<open>e.detail || fallback\<close>: an absent or empty string is falsy.\<close>

definition detail_or :: "error_body \<Rightarrow> string \<Rightarrow> string" where
  "detail_or e fallback =
     (case detail e of None \<Rightarrow> fallback | Some d \<Rightarrow> if d = [] then fallback else d)"

subsection \<open>The state of the page\<close>

record app_state =
  jobId :: "string option"
  anchorTime :: "rat option"
  beats :: "rat list"
  ws :: bool
  wsOriginal :: bool
  wsProcessed :: bool
  processedAudioUrl :: "string option"
  originalAudioUrl :: "string option"
  currentZoom :: rat
  uploadProgress_innerHTML :: string
  uploadProgressContainer_display :: string
  uploadProgressFill_width :: string
  uploadLabel_text :: string
  uploadPercent_text :: string
  analysisDiv_innerHTML :: string
  playBtn_disabled :: bool
  playBtnIcon_text :: string
  setDownbeatBtn_disabled :: bool
  anchorInfo_content :: string
  timeDisplay_text :: string
  durationDisplay_text :: string
  trackName_text :: string
  zoomInBtn_disabled :: bool
  zoomOutBtn_disabled :: bool
  zoomFitBtn_disabled :: bool
  zoomLevelDisplay_text :: string
  comparisonSection_display :: string
  bpmInput_value :: string
  strengthInput_value :: string
  cfInput_value :: string
  processBtn_disabled :: bool
  processBtn_loading :: bool
  processStatus_innerHTML :: string
  exportOptions_display :: string
  downloadWavBtn_href :: string
  downloadWavBtn_display :: string
  downloadMp3Btn_href :: string
  downloadMp3Btn_display :: string
  effects :: "effect list"

definition minZoom :: rat where "minZoom = 1"
definition maxZoom :: rat where "maxZoom = 100"

text \<open>
  The module-level variables as their initialisers leave them, on a page whose DOM
  properties are whatever the markup (not part of \<^verbatim>\<open>src/\<close>) sets; nothing has been
  asked of the outside world yet.
\<close>

definition script_loaded :: "app_state \<Rightarrow> app_state" where
  "script_loaded page =
     page\<lparr>jobId := None, anchorTime := None, beats := [], ws := False, wsOriginal := False,
          wsProcessed := False, processedAudioUrl := None, originalAudioUrl := None,
          currentZoom := 1, effects := []\<rparr>"

subsection \<open>Zoom\<close>

definition updateZoomDisplay :: "js_runtime \<Rightarrow> app_state \<Rightarrow> app_state" where
  "updateZoomDisplay rt s =
     s\<lparr>zoomLevelDisplay_text :=
         (if 10 \<le> currentZoom s
          then number_toString_int rt (Math_round (currentZoom s)) @ ''x''
          else toFixed rt 1 (currentZoom s) @ ''x''),
       zoomOutBtn_disabled := (currentZoom s \<le> minZoom),
       zoomInBtn_disabled := (maxZoom \<le> currentZoom s)\<rparr>"

definition zoomIn :: "js_runtime \<Rightarrow> app_state \<Rightarrow> app_state" where
  "zoomIn rt s =
     (if \<not> ws s \<or> maxZoom \<le> currentZoom s then s
      else
        let zoomFactor = (if currentZoom s < 10 then 3 / 2 else 2);
            zoom = min (currentZoom s * zoomFactor) maxZoom;
            pixelsPerSecond = max (50 * zoom) 50
        in updateZoomDisplay rt
             (s\<lparr>currentZoom := zoom, effects := effects s @ [WsZoom pixelsPerSecond]\<rparr>))"

definition zoomOut :: "js_runtime \<Rightarrow> app_state \<Rightarrow> app_state" where
  "zoomOut rt s =
     (if \<not> ws s \<or> currentZoom s \<le> minZoom then s
      else
        let zoomFactor = (if currentZoom s \<le> 10 then 3 / 2 else 2);
            zoom = max (currentZoom s / zoomFactor) minZoom;
            pixelsPerSecond = max (50 * zoom) 50
        in updateZoomDisplay rt
             (s\<lparr>currentZoom := zoom, effects := effects s @ [WsZoom pixelsPerSecond]\<rparr>))"

definition zoomToFit :: "js_runtime \<Rightarrow> app_state \<Rightarrow> app_state" where
  "zoomToFit rt s =
     (if \<not> ws s then s
      else updateZoomDisplay rt
             (s\<lparr>currentZoom := minZoom, effects := effects s @ [WsZoom 50]\<rparr>))"

subsection \<open>The main waveform\<close>

text \<open>
  \<^verbatim>\<open>initWave\<close> replaces the WaveSurfer instance and registers its handlers; each handler
  is a function of its own below, taking what it reads from the instance
  (\<^verbatim>\<open>getDuration()\<close>, \<^verbatim>\<open>getCurrentTime()\<close>) as an argument. Colour changes that only
  decorate an element are left out throughout.
\<close>

definition initWave :: "string \<Rightarrow> string \<Rightarrow> app_state \<Rightarrow> app_state" where
  "initWave url filename s =
     (let s1 = (if ws s then s\<lparr>effects := effects s @ [WsDestroy ''#wave'']\<rparr> else s)
      in s1\<lparr>ws := True,
            effects := effects s1 @ [WsLoad ''#wave'' url],
            originalAudioUrl := Some url\<rparr>)"

definition ws_ready :: "js_runtime \<Rightarrow> string \<Rightarrow> rat \<Rightarrow> app_state \<Rightarrow> app_state" where
  "ws_ready rt filename duration s =
     updateZoomDisplay rt
       (s\<lparr>playBtn_disabled := False,
          setDownbeatBtn_disabled := False,
          zoomInBtn_disabled := False,
          zoomOutBtn_disabled := True,
          zoomFitBtn_disabled := False,
          anchorInfo_content := ''Click on waveform to set downbeat anchor point'',
          trackName_text := (if filename = [] then ''Audio Track'' else filename),
          durationDisplay_text := ''/ '' @ formatTime rt duration,
          currentZoom := minZoom\<rparr>)"

definition ws_seek :: "js_runtime \<Rightarrow> rat \<Rightarrow> app_state \<Rightarrow> app_state" where
  "ws_seek rt currentTime s =
     s\<lparr>anchorTime := Some currentTime,
       anchorInfo_content := anchor_html (formatTime rt currentTime),
       processBtn_disabled := False\<rparr>"

definition ws_audioprocess :: "js_runtime \<Rightarrow> rat \<Rightarrow> app_state \<Rightarrow> app_state" where
  "ws_audioprocess rt currentTime s = s\<lparr>timeDisplay_text := formatTime rt currentTime\<rparr>"

definition ws_play :: "app_state \<Rightarrow> app_state" where
  "ws_play s = s\<lparr>playBtnIcon_text := pause_symbol\<rparr>"

definition ws_pause :: "app_state \<Rightarrow> app_state" where
  "ws_pause s = s\<lparr>playBtnIcon_text := play_symbol\<rparr>"

definition ws_finish :: "js_runtime \<Rightarrow> app_state \<Rightarrow> app_state" where
  "ws_finish rt s = s\<lparr>playBtnIcon_text := play_symbol, timeDisplay_text := formatTime rt 0\<rparr>"

definition playBtn_click :: "app_state \<Rightarrow> app_state" where
  "playBtn_click s = (if \<not> ws s then s else s\<lparr>effects := effects s @ [WsPlayPause]\<rparr>)"

subsection \<open>Upload\<close>

text \<open>
  \<^verbatim>\<open>uploadFileWithProgress\<close> is the body of the promise executor, up to \<^verbatim>\<open>xhr.send\<close>. The
  handlers it registers on the request settle the promise: each is a function returning
  the page and how the promise is settled. On a 2xx answer the promise is resolved by a
  timer 800 ms later. Progress events only repaint the progress bar and are not
  modelled. \<^verbatim>\<open>xhr.status\<close> is an unsigned short and the length of an array is below
  \<open>2^32\<close>, so a template literal writes both in decimal digits.
\<close>

definition uploadFileWithProgress :: "upload_file \<Rightarrow> app_state \<Rightarrow> app_state" where
  "uploadFileWithProgress f s =
     s\<lparr>uploadProgressContainer_display := ''block'',
       uploadLabel_text := ''Uploading audio file...'',
       uploadPercent_text := ''0%'',
       uploadProgressFill_width := ''0%'',
       analysisDiv_innerHTML := [],
       processStatus_innerHTML := [],
       exportOptions_display := ''none'',
       processBtn_disabled := True,
       anchorInfo_content := ''Upload in progress...'',
       effects := effects s @
         [XhrSend \<lparr>xhr_method = ''POST'', xhr_url = ''/api/upload'',
                   xhr_timeout = 120000, xhr_form_file = f\<rparr>]\<rparr>"

datatype settle = ResolveAfter nat upload_response | Reject string

definition xhr_load :: "xhr_response \<Rightarrow> app_state \<Rightarrow> app_state \<times> settle" where
  "xhr_load r s =
     (if 200 \<le> xhr_status r \<and> xhr_status r < 300 then
        (case xhr_json_data r of
           Some data \<Rightarrow>
             (s\<lparr>uploadProgressFill_width := ''100%'',
                uploadPercent_text := ''100%'',
                uploadLabel_text := ''Upload complete!''\<rparr>,
              ResolveAfter 800 data)
         | None \<Rightarrow> (s, Reject ''Failed to parse server response''))
      else
        (case xhr_json_error r of
           Some errorData \<Rightarrow> (s, Reject (detail_or errorData ''Upload failed''))
         | None \<Rightarrow>
             (s, Reject (''Upload failed with status '' @ int_digits (int (xhr_status r))))))"

definition xhr_error :: "app_state \<Rightarrow> app_state \<times> settle" where
  "xhr_error s =
     (s\<lparr>uploadProgressContainer_display := ''none''\<rparr>, Reject ''Network error during upload'')"

definition xhr_timeout_fired :: "app_state \<Rightarrow> app_state \<times> settle" where
  "xhr_timeout_fired s =
     (s\<lparr>uploadProgressContainer_display := ''none''\<rparr>, Reject ''Upload timeout'')"

text \<open>
  \<^verbatim>\<open>handleFileUpload\<close> in three parts: up to the \<^verbatim>\<open>await\<close>, the rest of the
  \<^verbatim>\<open>try\<close> block once the promise is resolved, and the \<^verbatim>\<open>catch\<close> block once it is
  rejected. In \<^verbatim>\<open>Math.round(data.bpm_estimate * 100) / 100\<close> the product and the
  quotient are rounded to doubles; an infinite product stays infinite and \<^verbatim>\<open>toFixed\<close>
  writes it by name.
\<close>

definition handleFileUpload :: "upload_file \<Rightarrow> app_state \<Rightarrow> app_state" where
  "handleFileUpload f s = uploadFileWithProgress f (s\<lparr>uploadProgress_innerHTML := []\<rparr>)"

definition handleFileUpload_resolved ::
  "js_runtime \<Rightarrow> upload_file \<Rightarrow> upload_response \<Rightarrow> app_state \<Rightarrow> app_state" where
  "handleFileUpload_resolved rt f data s =
     (let s1 = s\<lparr>jobId := Some (data_job_id data), beats := data_beats data\<rparr>;
          s2 = s1\<lparr>uploadProgress_innerHTML := upload_success_html (data_job_id data),
                  analysisDiv_innerHTML :=
                    analysis_html (toFixed rt 2 (data_bpm_estimate data))
                      (int_digits (int (length (beats s1))))\<rparr>;
          s3 = initWave (createObjectURL rt f) (file_name f) s2
      in s3\<lparr>bpmInput_value :=
              (let p = data_bpm_estimate data * 100
               in if overflows p then (if p < 0 then ''-Infinity'' else ''Infinity'')
                  else toFixed rt 2
                         (round_double (of_int (Math_round (round_double p)) / 100))),
            comparisonSection_display := ''none'',
            exportOptions_display := ''none''\<rparr>)"

definition handleFileUpload_rejected :: "string \<Rightarrow> app_state \<Rightarrow> app_state" where
  "handleFileUpload_rejected message s =
     s\<lparr>uploadProgressContainer_display := ''none'',
       uploadProgress_innerHTML := error_html message,
       anchorInfo_content := ''Upload failed''\<rparr>"

text \<open>The timer of a 2xx answer hides the progress bar and resolves the promise.\<close>

definition upload_timer ::
  "js_runtime \<Rightarrow> upload_file \<Rightarrow> upload_response \<Rightarrow> app_state \<Rightarrow> app_state" where
  "upload_timer rt f data s =
     handleFileUpload_resolved rt f data (s\<lparr>uploadProgressContainer_display := ''none''\<rparr>)"

subsection \<open>Choosing a file\<close>

definition ascii_lower :: "char \<Rightarrow> char" where
  "ascii_lower c =
     (let n = (of_char c :: nat) in if 65 \<le> n \<and> n \<le> 90 then char_of (n + 32) else c)"

definition ends_with :: "string \<Rightarrow> string \<Rightarrow> bool" where
  "ends_with suffix s \<longleftrightarrow>
     length suffix \<le> length s \<and> drop (length s - length suffix) s = suffix"

text \<open>The test \<^verbatim>\<open>file.name.match(/\.(mp3|wav|m4a)$/i)\<close>.\<close>

definition name_matches :: "string \<Rightarrow> bool" where
  "name_matches name =
     (let lower = map ascii_lower name
      in ends_with ''.mp3'' lower \<or> ends_with ''.wav'' lower \<or> ends_with ''.m4a'' lower)"

definition validTypes :: "string list" where
  "validTypes = [''audio/mpeg'', ''audio/wav'', ''audio/mp4'', ''audio/m4a'']"

definition maxSize :: nat where
  "maxSize = 100 * 1024 * 1024"

definition fileInput_change :: "js_runtime \<Rightarrow> upload_file option \<Rightarrow> app_state \<Rightarrow> app_state" where
  "fileInput_change rt selected s =
     (case selected of
        None \<Rightarrow> s
      | Some f \<Rightarrow>
          let s1 = updateZoomDisplay rt
                     (s\<lparr>trackName_text := ''No file loaded'',
                        timeDisplay_text := ''00:00.000'',
                        durationDisplay_text := ''/ 00:00.000'',
                        anchorTime := None,
                        zoomInBtn_disabled := True,
                        zoomOutBtn_disabled := True,
                        zoomFitBtn_disabled := True,
                        currentZoom := minZoom\<rparr>)
          in if file_type f \<notin> set validTypes \<and> \<not> name_matches (file_name f) then
               s1\<lparr>uploadProgress_innerHTML :=
                    error_html ''Please select a valid audio file (MP3, WAV, M4A)''\<rparr>
             else if maxSize < file_size f then
               s1\<lparr>uploadProgress_innerHTML :=
                    error_html ''File too large. Maximum size is 100MB.''\<rparr>
             else handleFileUpload f s1)"

subsection \<open>Processing\<close>

text \<open>
  The click handler of the process button up to its \<^verbatim>\<open>await fetch(...)\<close>. \<^verbatim>\<open>!jobId\<close>
  holds for \<^verbatim>\<open>null\<close> and for the empty string.
\<close>

definition process_payload :: "js_runtime \<Rightarrow> string \<Rightarrow> rat \<Rightarrow> app_state \<Rightarrow> (string \<times> jsval) list" where
  "process_payload rt job anchor s =
     [(''job_id'', JSString job),
      (''target_bpm'', JSNumber (parseFloat rt (bpmInput_value s))),
      (''strength'', JSNumber (parseFloat rt (strengthInput_value s))),
      (''anchor_time'', JSNumber (Finite anchor)),
      (''crossfade_ms'', JSNumber (parseInt10 rt (cfInput_value s))),
      (''engine'', JSString ''auto'')]"

definition processBtn_click :: "js_runtime \<Rightarrow> app_state \<Rightarrow> app_state" where
  "processBtn_click rt s =
     (case (jobId s, anchorTime s) of
        (Some job, Some anchor) \<Rightarrow>
          if job = [] then s
          else
            s\<lparr>processBtn_disabled := True,
              processBtn_loading := True,
              processStatus_innerHTML := processing_html,
              effects := effects s @
                [Fetch \<lparr>fetch_url = ''/api/process'',
                        fetch_method = ''POST'',
                        fetch_headers = [(''Content-Type'', ''application/json'')],
                        fetch_body = JSON_stringify (process_payload rt job anchor s)\<rparr>]\<rparr>
      | _ \<Rightarrow> s)"

text \<open>The template literal \<^verbatim>\<open>`/api/download/${jobId}`\<close>, read when the response is in.\<close>

definition downloadBaseUrl :: "app_state \<Rightarrow> string" where
  "downloadBaseUrl s = ''/api/download/'' @ (case jobId s of None \<Rightarrow> ''null'' | Some job \<Rightarrow> job)"

text \<open>
  \<^verbatim>\<open>showComparisonSection\<close> shows the section and starts two timers; the second one
  (300 ms) runs \<^verbatim>\<open>initComparisonWaveforms\<close>, which loads both audio URLs.
\<close>

definition showComparisonSection :: "app_state \<Rightarrow> app_state" where
  "showComparisonSection s = s\<lparr>comparisonSection_display := ''block''\<rparr>"

definition load_if_truthy :: "string \<Rightarrow> string option \<Rightarrow> app_state \<Rightarrow> app_state" where
  "load_if_truthy container url s =
     (case url of
        None \<Rightarrow> s
      | Some u \<Rightarrow> if u = [] then s else s\<lparr>effects := effects s @ [WsLoad container u]\<rparr>)"

definition initComparisonWaveforms :: "app_state \<Rightarrow> app_state" where
  "initComparisonWaveforms s =
     (let s1 = (if wsOriginal s then s\<lparr>effects := effects s @ [WsDestroy ''#waveOriginal'']\<rparr>
                else s)\<lparr>wsOriginal := True\<rparr>;
          s2 = (if wsProcessed s1
                then s1\<lparr>effects := effects s1 @ [WsDestroy ''#waveProcessed'']\<rparr>
                else s1)\<lparr>wsProcessed := True\<rparr>;
          s3 = load_if_truthy ''#waveOriginal'' (originalAudioUrl s2) s2
      in load_if_truthy ''#waveProcessed'' (processedAudioUrl s3) s3)"

text \<open>The rest of the \<^verbatim>\<open>try\<close> block after a response with \<^verbatim>\<open>res.ok\<close>.\<close>

definition process_succeeded :: "app_state \<Rightarrow> app_state" where
  "process_succeeded s =
     showComparisonSection
       (s\<lparr>processBtn_loading := False,
          processStatus_innerHTML := complete_html,
          downloadWavBtn_href := downloadBaseUrl s @ ''?format=wav'',
          downloadMp3Btn_href := downloadBaseUrl s @ ''?format=mp3&bitrate=320'',
          processedAudioUrl := Some (downloadBaseUrl s @ ''?format=wav&preview=true''),
          exportOptions_display := ''block'',
          downloadWavBtn_display := ''inline-flex'',
          downloadMp3Btn_display := ''inline-flex''\<rparr>)"

text \<open>The \<^verbatim>\<open>catch\<close> block, with the message of the error caught.\<close>

definition process_failed :: "string \<Rightarrow> app_state \<Rightarrow> app_state" where
  "process_failed message s =
     s\<lparr>processBtn_loading := False,
       processBtn_disabled := False,
       processStatus_innerHTML := error_html message\<rparr>"

text \<open>The continuation of the click handler once the fetch has ended.\<close>

definition processBtn_settled :: "fetch_outcome \<Rightarrow> app_state \<Rightarrow> app_state" where
  "processBtn_settled outcome s =
     (case outcome of
        FetchRejected message \<Rightarrow> process_failed message s
      | FetchResponse status body \<Rightarrow>
          if \<not> res_ok status then
            (case body of
               Inl message \<Rightarrow> process_failed message s
             | Inr err \<Rightarrow> process_failed (detail_or err ''Process failed'') s)
          else process_succeeded s)"

subsection \<open>Keyboard, wheel and page load\<close>

definition keydown :: "js_runtime \<Rightarrow> bool \<Rightarrow> string \<Rightarrow> app_state \<Rightarrow> app_state" where
  "keydown rt target_is_input key s =
     (if target_is_input then s
      else if key = ''+'' \<or> key = ''='' then zoomIn rt s
      else if key = ''-'' then zoomOut rt s
      else if key = ''0'' then zoomToFit rt s
      else if key = '' '' then playBtn_click s
      else s)"

definition wheel :: "js_runtime \<Rightarrow> bool \<Rightarrow> rat \<Rightarrow> app_state \<Rightarrow> app_state" where
  "wheel rt ctrlKey deltaY s =
     (if \<not> ws s \<or> \<not> ctrlKey then s
      else if deltaY < 0 then zoomIn rt s
      else zoomOut rt s)"

definition domContentLoaded :: "app_state \<Rightarrow> app_state" where
  "domContentLoaded s =
     s\<lparr>timeDisplay_text := ''00:00.000'', durationDisplay_text := ''/ 00:00.000''\<rparr>"

subsection \<open>Events\<close>

text \<open>
  Everything that can run after the script has loaded: a handler called by the browser,
  by WaveSurfer or by the request, or a continuation called by a timer or a settled
  promise. The timer of an upload carries the file and the response of the call it
  belongs to, as its closure does. A handler registered on the waveform runs only once
  \<^verbatim>\<open>initWave\<close> has created an instance, and \<^verbatim>\<open>ws\<close> is never reset afterwards. The
  values of the three inputs are those of the state: the user edits them between
  events. The handlers of the comparison player and of focus and blur touch none of the
  fields kept here.
\<close>

datatype event =
    FileInputChange "upload_file option"
  | XhrLoad xhr_response
  | XhrError
  | XhrTimeout
  | UploadTimer upload_file upload_response
  | WsReady string rat
  | WsSeek rat
  | WsAudioprocess rat
  | WsPlay
  | WsPause
  | WsFinish
  | PlayClick
  | ZoomInClick
  | ZoomOutClick
  | ZoomFitClick
  | ProcessClick
  | ProcessSettled fetch_outcome
  | ComparisonTimer
  | KeyDown bool string
  | Wheel bool rat
  | DomContentLoaded

text \<open>
  A rejected upload runs the \<^verbatim>\<open>catch\<close> block of \<^verbatim>\<open>handleFileUpload\<close> at once; a
  resolved one waits for its timer.
\<close>

definition settle_upload :: "app_state \<times> settle \<Rightarrow> app_state" where
  "settle_upload p =
     (case snd p of
        ResolveAfter ms data \<Rightarrow> fst p
      | Reject message \<Rightarrow> handleFileUpload_rejected message (fst p))"

fun step :: "js_runtime \<Rightarrow> event \<Rightarrow> app_state \<Rightarrow> app_state" where
  "step rt (FileInputChange selected) s = fileInput_change rt selected s"
| "step rt (XhrLoad r) s = settle_upload (xhr_load r s)"
| "step rt XhrError s = settle_upload (xhr_error s)"
| "step rt XhrTimeout s = settle_upload (xhr_timeout_fired s)"
| "step rt (UploadTimer f data) s = upload_timer rt f data s"
| "step rt (WsReady filename duration) s = (if ws s then ws_ready rt filename duration s else s)"
| "step rt (WsSeek t) s = (if ws s then ws_seek rt t s else s)"
| "step rt (WsAudioprocess t) s = (if ws s then ws_audioprocess rt t s else s)"
| "step rt WsPlay s = (if ws s then ws_play s else s)"
| "step rt WsPause s = (if ws s then ws_pause s else s)"
| "step rt WsFinish s = (if ws s then ws_finish rt s else s)"
| "step rt PlayClick s = playBtn_click s"
| "step rt ZoomInClick s = zoomIn rt s"
| "step rt ZoomOutClick s = zoomOut rt s"
| "step rt ZoomFitClick s = zoomToFit rt s"
| "step rt ProcessClick s = processBtn_click rt s"
| "step rt (ProcessSettled outcome) s = processBtn_settled outcome s"
| "step rt ComparisonTimer s = initComparisonWaveforms s"
| "step rt (KeyDown target_is_input key) s = keydown rt target_is_input key s"
| "step rt (Wheel ctrlKey deltaY) s = wheel rt ctrlKey deltaY s"
| "step rt DomContentLoaded s = domContentLoaded s"

fun run :: "js_runtime \<Rightarrow> event list \<Rightarrow> app_state \<Rightarrow> app_state" where
  "run rt [] s = s"
| "run rt (e # es) s = run rt es (step rt e s)"


text \<open>What was asked of the network, and with which values the waveform was zoomed.\<close>

fun is_request :: "effect \<Rightarrow> bool" where
  "is_request (XhrSend r) = True"
| "is_request (Fetch r) = True"
| "is_request _ = False"

definition requests :: "app_state \<Rightarrow> effect list" where
  "requests s = filter is_request (effects s)"

fun zoom_values :: "effect list \<Rightarrow> rat list" where
  "zoom_values [] = []"
| "zoom_values (WsZoom pixelsPerSecond # es) = pixelsPerSecond # zoom_values es"
| "zoom_values (e # es) = zoom_values es"


text \<open>
  The time, in milliseconds after the handler that settled it, from which the promise of
  \<^verbatim>\<open>uploadFileWithProgress\<close> is no longer pending.
\<close>

datatype promise = Pending | Fulfilled upload_response | Rejected string

fun promise_after :: "nat \<Rightarrow> settle \<Rightarrow> promise" where
  "promise_after t (Reject message) = Rejected message"
| "promise_after t (ResolveAfter ms data) = (if ms \<le> t then Fulfilled data else Pending)"

text \<open>
  A number with exactly two decimal places, in the words of the specification: the
  nearest multiple of \<open>1/100\<close>.
\<close>

definition two_decimals :: "rat \<Rightarrow> string" where
  "two_decimals x =
     (let n = \<lfloor>x * 100 + 1 / 2\<rfloor>
      in int_digits (n div 100) @ ''.'' @ zero_pad_left 2 (int_digits (n mod 100)))"

subsection \<open>A page and a runtime for the examples\<close>

text \<open>
  The examples below are evaluated on a page whose DOM properties are all empty or
  false, with the variables of the script as its initialisers leave them, and with a
  runtime that is right on the two strings the examples have it parse: \<^verbatim>\<open>120.00\<close> and
  the empty string, which is not a number. No example reaches the exponent notation.
\<close>

definition blank_page :: app_state where
  "blank_page =
     \<lparr>jobId = None, anchorTime = None, beats = [], ws = False, wsOriginal = False,
      wsProcessed = False, processedAudioUrl = None, originalAudioUrl = None,
      currentZoom = 1,
      uploadProgress_innerHTML = [], uploadProgressContainer_display = [],
      uploadProgressFill_width = [], uploadLabel_text = [], uploadPercent_text = [],
      analysisDiv_innerHTML = [], playBtn_disabled = False, playBtnIcon_text = [],
      setDownbeatBtn_disabled = False, anchorInfo_content = [], timeDisplay_text = [],
      durationDisplay_text = [], trackName_text = [], zoomInBtn_disabled = False,
      zoomOutBtn_disabled = False, zoomFitBtn_disabled = False, zoomLevelDisplay_text = [],
      comparisonSection_display = [], bpmInput_value = [], strengthInput_value = [],
      cfInput_value = [], processBtn_disabled = False, processBtn_loading = False,
      processStatus_innerHTML = [], exportOptions_display = [], downloadWavBtn_href = [],
      downloadWavBtn_display = [], downloadMp3Btn_href = [], downloadMp3Btn_display = [],
      effects = []\<rparr>"

definition example_runtime :: js_runtime where
  "example_runtime =
     \<lparr>parseFloat = (\<lambda>v. if v = ''120.00'' then Finite 120 else NaN),
      parseInt10 = (\<lambda>v. NaN),
      number_toString_big = (\<lambda>x. []),
      createObjectURL = (\<lambda>f. ''blob:'' @ file_name f)\<rparr>"

text \<open>
  Two files and the answers to their uploads, and the events of a session in which the
  first one is uploaded and the anchor is set at 10 s: the file is chosen, the upload
  answers 200, its timer resolves the promise, the waveform (30 s of audio) is ready,
  and the user clicks on it.
\<close>

definition first_file :: upload_file where
  "first_file = \<lparr>file_name = ''one.mp3'', file_type = ''audio/mpeg'', file_size = 1000\<rparr>"

definition second_file :: upload_file where
  "second_file = \<lparr>file_name = ''two.mp3'', file_type = ''audio/mpeg'', file_size = 1000\<rparr>"

definition first_answer :: upload_response where
  "first_answer =
     \<lparr>data_job_id = ''job-1'', data_bpm_estimate = 120, data_beats = [1 / 2, 1],
      data_other_members = []\<rparr>"

definition second_answer :: upload_response where
  "second_answer =
     \<lparr>data_job_id = ''job-2'', data_bpm_estimate = 120, data_beats = [1 / 2, 1],
      data_other_members = []\<rparr>"

definition upload_and_anchor :: "event list" where
  "upload_and_anchor =
     [FileInputChange (Some first_file),
      XhrLoad \<lparr>xhr_status = 200, xhr_json_data = Some first_answer, xhr_json_error = None\<rparr>,
      UploadTimer first_file first_answer,
      WsReady ''one.mp3'' 30,
      WsSeek 10]"

text \<open>
  The same session going on: the process button is clicked, and while the request is
  under way a second file is chosen and its upload finishes.
\<close>

definition second_upload_during_process :: "event list" where
  "second_upload_during_process =
     upload_and_anchor @
     [ProcessClick,
      FileInputChange (Some second_file),
      XhrLoad \<lparr>xhr_status = 200, xhr_json_data = Some second_answer, xhr_json_error = None\<rparr>,
      UploadTimer second_file second_answer]"

section \<open>The Warp Planner\<close>

text \<open>
  The planner runs on the server, whose source is not part of \<^verbatim>\<open>src/\<close>; this section
  follows section 4.2 of the specification.
\<close>

text \<open>Modelled from the spec: a segment of the WarpCurve (section 3); the planner's source is absent.\<close>

record segment =
  source_time_start :: rat
  source_time_end :: rat
  output_ratio :: rat

text \<open>Modelled from the spec: the planner's failures (section 4.2); the planner's source is absent.\<close>

datatype plan_error = InvalidAnchor | InvalidParameter

text \<open>Modelled from the spec: \<open>strength\<close> is clamped to \<open>[0, 1]\<close>; the planner's source is absent.\<close>

definition clamp_strength :: "rat \<Rightarrow> rat" where
  "clamp_strength strength = max 0 (min 1 strength)"

text \<open>
  Modelled from the spec: \<open>blended = reference_duration * (1 - strength) +
  target_duration * strength\<close>; the planner's source is absent.
\<close>

definition blended :: "rat \<Rightarrow> rat \<Rightarrow> rat \<Rightarrow> rat" where
  "blended reference_duration target_duration strength =
     reference_duration * (1 - strength) + target_duration * strength"

text \<open>
  Modelled from the spec: one segment per beat interval, its ratio
  \<open>output_duration / reference_duration\<close>; the planner's source is absent.
\<close>

fun beat_segments :: "rat \<Rightarrow> rat \<Rightarrow> rat list \<Rightarrow> segment list" where
  "beat_segments target_duration strength (b1 # b2 # bs) =
     \<lparr>source_time_start = b1, source_time_end = b2,
      output_ratio = blended (b2 - b1) target_duration strength / (b2 - b1)\<rparr>
       # beat_segments target_duration strength (b2 # bs)"
| "beat_segments target_duration strength bs = []"

text \<open>
  Modelled from the spec: the segmentation of the whole source. The stretch before the
  first beat and after the last one reuses the nearest interval's ratio; with fewer than
  two beats there is one segment stretched by \<open>bpm_estimate / target_bpm\<close>. The planner's
  source is absent.
\<close>

definition plan_segments :: "rat list \<Rightarrow> rat \<Rightarrow> rat \<Rightarrow> rat \<Rightarrow> rat \<Rightarrow> segment list" where
  "plan_segments bs bpm_estimate target_bpm strength source_duration =
     (case beat_segments (60 / target_bpm) (clamp_strength strength) bs of
        [] \<Rightarrow>
          [\<lparr>source_time_start = 0, source_time_end = source_duration,
            output_ratio = bpm_estimate / target_bpm\<rparr>]
      | seg # segs \<Rightarrow>
          \<lparr>source_time_start = 0, source_time_end = source_time_start seg,
           output_ratio = output_ratio seg\<rparr>
            # (seg # segs)
            @ [\<lparr>source_time_start = source_time_end (last (seg # segs)),
                source_time_end = source_duration,
                output_ratio = output_ratio (last (seg # segs))\<rparr>])"

text \<open>
  Modelled from the spec: the planner's contract, with \<open>InvalidParameter\<close> for a target
  tempo that is not positive and \<open>InvalidAnchor\<close> for an anchor outside
  \<open>[0, source_duration]\<close>; the planner's source is absent.
\<close>

definition plan_warp ::
  "rat list \<Rightarrow> rat \<Rightarrow> rat \<Rightarrow> rat \<Rightarrow> rat \<Rightarrow> rat \<Rightarrow> plan_error + segment list" where
  "plan_warp bs bpm_estimate target_bpm anchor_time strength source_duration =
     (if target_bpm \<le> 0 then Inl InvalidParameter
      else if anchor_time < 0 \<or> source_duration < anchor_time then Inl InvalidAnchor
      else Inr (plan_segments bs bpm_estimate target_bpm strength source_duration))"

text \<open>
  Modelled from the spec: the output timeline is accumulated outward from the anchor in
  both directions. \<open>stretched_length curve a b\<close> is the output duration of the source
  span from \<open>a\<close> to \<open>b\<close>; \<open>warp\<close> lays it out after the anchor for a later time and
  before the anchor for an earlier one. The planner's source is absent.
\<close>

definition overlap :: "segment \<Rightarrow> rat \<Rightarrow> rat \<Rightarrow> rat" where
  "overlap seg a b = max 0 (min (source_time_end seg) b - max (source_time_start seg) a)"

definition stretched_length :: "segment list \<Rightarrow> rat \<Rightarrow> rat \<Rightarrow> rat" where
  "stretched_length curve a b = sum_list (map (\<lambda>seg. output_ratio seg * overlap seg a b) curve)"

definition warp :: "segment list \<Rightarrow> rat \<Rightarrow> rat \<Rightarrow> rat" where
  "warp curve anchor_time t =
     (if anchor_time \<le> t then anchor_time + stretched_length curve anchor_time t
      else anchor_time - stretched_length curve t anchor_time)"

section \<open>Auxiliary functions of the proofs\<close>

text \<open>The last \<open>k\<close> decimal digits of an integer, with leading zeros.\<close>

fun last_digits :: "nat \<Rightarrow> int \<Rightarrow> string" where
  "last_digits 0 n = []"
| "last_digits (Suc k) n = last_digits k (n div 10) @ [digit_char (n mod 10)]"

text \<open>The invariant of the zoom level and of the values the waveform was zoomed with.\<close>

definition zoom_ok :: "app_state \<Rightarrow> bool" where
  "zoom_ok s \<longleftrightarrow>
     minZoom \<le> currentZoom s \<and> currentZoom s \<le> maxZoom \<and>
     list_all (\<lambda>pixelsPerSecond. 50 \<le> pixelsPerSecond) (zoom_values (effects s))"

section \<open>Number formatting\<close>

lemma int_digits_small: "n < 10 \<Longrightarrow> int_digits n = [digit_char n]"
  by (subst int_digits.simps) simp

lemma int_digits_large: "10 \<le> n \<Longrightarrow> int_digits n = int_digits (n div 10) @ [digit_char (n mod 10)]"
  by (subst int_digits.simps) simp

lemma length_int_digits_pos: "0 < length (int_digits n)"
  by (subst int_digits.simps) simp

lemma ten_le_power: "0 < k \<Longrightarrow> (10::int) \<le> 10 ^ k"
  using power_increasing [of 1 k "10::int"] by simp

lemma length_int_digits_le: "0 \<le> n \<Longrightarrow> 0 < k \<Longrightarrow> length (int_digits n) \<le> k \<longleftrightarrow> n < 10 ^ k"
proof (induction n arbitrary: k rule: int_digits.induct)
  case (1 n)
  show ?case
  proof (cases "n < 10")
    case True
    with ten_le_power [OF \<open>0 < k\<close>] show ?thesis using \<open>0 < k\<close> by (simp add: int_digits_small)
  next
    case False
    show ?thesis
    proof (cases "k = 1")
      case True
      with False show ?thesis using length_int_digits_pos [of "n div 10"]
        by (simp add: int_digits_large)
    next
      case k: False
      then obtain j where j: "k = Suc j" "0 < j" using \<open>0 < k\<close> by (cases k) auto
      have "length (int_digits (n div 10)) \<le> j \<longleftrightarrow> n div 10 < 10 ^ j"
        using "1.IH" [of j] False "1.prems" j by simp
      moreover have "n div 10 < 10 ^ j \<longleftrightarrow> n < 10 ^ k"
        using j by auto
      ultimately show ?thesis using False j by (simp add: int_digits_large)
    qed
  qed
qed

lemma length_last_digits: "length (last_digits k n) = k"
  by (induction k arbitrary: n) auto

lemma last_digits_zero: "last_digits k 0 = replicate k CHR ''0''"
  by (induction k) (auto simp: digit_char_def replicate_append_same)

lemma zero_pad_left_snoc: "zero_pad_left (Suc k) (xs @ [c]) = zero_pad_left k xs @ [c]"
  by (simp add: zero_pad_left_def)

lemma zero_pad_last_digits:
  "0 \<le> n \<Longrightarrow> n < 10 ^ k \<Longrightarrow> 0 < k \<Longrightarrow> zero_pad_left k (int_digits n) = last_digits k n"
proof (induction k arbitrary: n)
  case 0
  then show ?case by simp
next
  case (Suc k)
  show ?case
  proof (cases "n < 10")
    case True
    then have "n div 10 = 0" "n mod 10 = n" using Suc.prems by auto
    then show ?thesis using True
      by (simp add: int_digits_small zero_pad_left_def last_digits_zero)
  next
    case False
    then have k: "0 < k" using Suc.prems by (cases k) auto
    have "n div 10 < 10 ^ k" using Suc.prems by auto
    then have "zero_pad_left k (int_digits (n div 10)) = last_digits k (n div 10)"
      using Suc.IH [of "n div 10"] Suc.prems k by simp
    then show ?thesis using False by (simp add: int_digits_large zero_pad_left_snoc)
  qed
qed

lemma int_digits_split:
  "10 ^ k \<le> n \<Longrightarrow> int_digits n = int_digits (n div 10 ^ k) @ last_digits k n"
proof (induction k arbitrary: n)
  case 0
  then show ?case by simp
next
  case (Suc k)
  have "(10::int) \<le> 10 ^ Suc k" by (rule ten_le_power) simp
  then have n: "10 \<le> n" using Suc.prems by (rule order_trans)
  have "10 ^ k \<le> n div 10" using Suc.prems by simp
  then have "int_digits (n div 10) = int_digits (n div 10 div 10 ^ k) @ last_digits k (n div 10)"
    by (rule Suc.IH)
  moreover have "n div 10 div 10 ^ k = n div 10 ^ Suc k"
    by (simp add: zdiv_zmult2_eq)
  ultimately show ?case using n by (simp add: int_digits_large)
qed

lemma last_digits_mod: "last_digits k (n mod 10 ^ k) = last_digits k n"
proof (induction k arbitrary: n)
  case 0
  then show ?case by simp
next
  case (Suc k)
  have e: "n mod 10 ^ Suc k = 10 * (n div 10 mod 10 ^ k) + n mod 10"
    using zmod_zmult2_eq [of "10 ^ k" n 10] by simp
  have a: "n mod 10 ^ Suc k div 10 = n div 10 mod 10 ^ k"
    unfolding e by simp
  have b: "n mod 10 ^ Suc k mod 10 = n mod 10"
    unfolding e by simp
  show ?case using Suc.IH [of "n div 10"] a b by simp
qed

lemma padStart_zero: "padStart k ''0'' s = zero_pad_left k s"
proof -
  have "concat (replicate n ''0'') = replicate n CHR ''0''" for n
    by (induction n) auto
  then show ?thesis by (simp add: padStart_def zero_pad_left_def Let_def)
qed

lemma toFixed_decimal:
  assumes "0 \<le> x" and "x < 10 ^ 21" and "0 < f"
  shows "toFixed rt f x =
    (let n = \<lfloor>x * 10 ^ f + 1 / 2\<rfloor>
     in int_digits (n div 10 ^ f) @ ''.'' @ zero_pad_left f (int_digits (n mod 10 ^ f)))"
proof -
  define n where "n = \<lfloor>x * 10 ^ f + 1 / 2\<rfloor>"
  have n0: "0 \<le> n" unfolding n_def using assms(1) by simp
  have frac: "zero_pad_left f (int_digits (n mod 10 ^ f)) = last_digits f n"
    using zero_pad_last_digits [of "n mod 10 ^ f" f] assms(3) by (simp add: last_digits_mod)
  have "toFixed rt f x =
      (let m = int_digits n;
           m2 = (if length m \<le> f then replicate (f + 1 - length m) CHR ''0'' @ m else m);
           k = length m2
       in take (k - f) m2 @ ''.'' @ drop (k - f) m2)"
    using assms by (simp add: toFixed_def n_def Let_def)
  also have "\<dots> = int_digits (n div 10 ^ f) @ ''.'' @ last_digits f n"
  proof (cases "n < 10 ^ f")
    case True
    then have len: "length (int_digits n) \<le> f"
      using length_int_digits_le [OF n0 assms(3)] by simp
    have "replicate (f + 1 - length (int_digits n)) CHR ''0'' @ int_digits n
        = CHR ''0'' # zero_pad_left f (int_digits n)"
      using len by (simp add: zero_pad_left_def Suc_diff_le)
    moreover have "zero_pad_left f (int_digits n) = last_digits f n"
      using zero_pad_last_digits [OF n0 True assms(3)] .
    moreover have "n div 10 ^ f = 0" using True n0 by simp
    ultimately show ?thesis using len
      by (simp add: Let_def length_last_digits int_digits_small digit_char_def)
  next
    case False
    then have len: "\<not> length (int_digits n) \<le> f"
      using length_int_digits_le [OF n0 assms(3)] by simp
    have split: "int_digits n = int_digits (n div 10 ^ f) @ last_digits f n"
      using int_digits_split [of f n] False by simp
    show ?thesis using len unfolding Let_def
      by (simp add: split length_last_digits)
  qed
  finally show ?thesis by (simp add: n_def [symmetric] frac Let_def)
qed


section \<open>Rounding to a double\<close>

lemma bit_length_pos: "0 < n \<Longrightarrow> bit_length n = 1 + bit_length (n div 2)"
  by (subst bit_length.simps) simp

lemma bit_length_nonpos: "n \<le> 0 \<Longrightarrow> bit_length n = 0"
  by (subst bit_length.simps) simp

lemma bit_length_nonneg: "0 \<le> bit_length n"
  by (induction n rule: bit_length.induct) (subst bit_length.simps, simp)

lemma bit_length_bounds:
  "0 < n \<Longrightarrow> 2 ^ nat (bit_length n - 1) \<le> n \<and> n < 2 ^ nat (bit_length n)"
proof (induction n rule: bit_length.induct)
  case (1 n)
  show ?case
  proof (cases "n = 1")
    case True
    then show ?thesis by (simp add: bit_length_pos bit_length_nonpos)
  next
    case False
    with "1.prems" have m: "0 < n div 2" by simp
    let ?m = "n div 2"
    let ?b = "bit_length ?m"
    have ih: "2 ^ nat (?b - 1) \<le> ?m" "?m < 2 ^ nat ?b"
      using "1.IH" "1.prems" m by simp_all
    have b1: "1 \<le> ?b" using m by (simp add: bit_length_pos bit_length_nonneg)
    have bl: "bit_length n = 1 + ?b" using "1.prems" by (rule bit_length_pos)
    have e1: "nat (bit_length n - 1) = Suc (nat (?b - 1))" using b1 bl by simp
    have e2: "nat (bit_length n) = Suc (nat ?b)" using b1 bl by simp
    have "2 * 2 ^ nat (?b - 1) \<le> 2 * ?m" using ih(1) by simp
    also have "\<dots> \<le> n" by simp
    finally have lo: "2 ^ nat (bit_length n - 1) \<le> n" by (simp add: e1)
    have "n < 2 * ?m + 2" by simp
    also have "\<dots> \<le> 2 * 2 ^ nat ?b" using ih(2) by simp
    finally have hi: "n < 2 ^ nat (bit_length n)" by (simp add: e2)
    from lo hi show ?thesis ..
  qed
qed

lemma bit_length_powi:
  assumes "0 < n"
  shows "(2::rat) powi (bit_length n - 1) \<le> of_int n" and "of_int n < (2::rat) powi bit_length n"
proof -
  have b1: "1 \<le> bit_length n" using assms by (simp add: bit_length_pos bit_length_nonneg)
  have "(2::rat) powi (bit_length n - 1) = 2 ^ nat (bit_length n - 1)"
    using b1 by (simp add: power_int_def)
  also have "\<dots> = of_int (2 ^ nat (bit_length n - 1))" by simp
  also have "\<dots> \<le> of_int n" using bit_length_bounds [OF assms] by (subst of_int_le_iff) simp
  finally show "(2::rat) powi (bit_length n - 1) \<le> of_int n" .
  have "(of_int n :: rat) < of_int (2 ^ nat (bit_length n))"
    using bit_length_bounds [OF assms] by (subst of_int_less_iff) simp
  also have "\<dots> = 2 powi bit_length n" using b1 by (simp add: power_int_def)
  finally show "of_int n < (2::rat) powi bit_length n" .
qed

lemma floor_log2_bounds:
  assumes "0 < a"
  shows "2 powi floor_log2 a \<le> a" and "a < 2 powi (floor_log2 a + 1)"
proof -
  obtain p q where pq: "quotient_of a = (p, q)" by (cases "quotient_of a")
  have q: "0 < q" using pq by (rule quotient_of_denom_pos)
  have a: "a = of_int p / of_int q" using pq by (rule quotient_of_div)
  have p: "0 < p" using assms q a by (simp add: zero_less_divide_iff)
  let ?d = "bit_length p - bit_length q"
  have lo: "(2::rat) powi (?d - 1) < a"
  proof -
    have "(2::rat) powi (?d - 1) = 2 powi (bit_length p - 1) / 2 powi bit_length q"
      by (simp add: power_int_diff)
    also have "\<dots> \<le> of_int p / 2 powi bit_length q"
      using bit_length_powi(1) [OF p] by (simp add: divide_right_mono)
    also have "\<dots> < of_int p / of_int q"
      using bit_length_powi(2) [OF q] p q by (intro divide_strict_left_mono) simp_all
    finally show ?thesis by (simp add: a)
  qed
  have hi: "a < (2::rat) powi (?d + 1)"
  proof -
    have "a = of_int p / of_int q" by (rule a)
    also have "\<dots> < 2 powi bit_length p / of_int q"
      using bit_length_powi(2) [OF p] q by (simp add: divide_strict_right_mono)
    also have "\<dots> \<le> 2 powi bit_length p / 2 powi (bit_length q - 1)"
      using bit_length_powi(1) [OF q] q by (intro divide_left_mono) simp_all
    also have "\<dots> = 2 powi (?d + 1)"
      by (simp add: power_int_diff power_int_add field_simps)
    finally show ?thesis .
  qed
  have fl: "floor_log2 a = (if 2 powi ?d \<le> a then ?d else ?d - 1)"
    by (simp add: floor_log2_def pq Let_def)
  show "2 powi floor_log2 a \<le> a" using lo by (simp add: fl)
  show "a < 2 powi (floor_log2 a + 1)" using hi by (auto simp: fl not_le)
qed

lemma powi2_less_imp: "(2::rat) powi m < 2 powi n \<Longrightarrow> m < n"
proof (rule ccontr)
  assume a: "(2::rat) powi m < 2 powi n" and "\<not> m < n"
  then have "n \<le> m" by simp
  then have "(2::rat) powi n \<le> 2 powi m" by (intro power_int_increasing) simp_all
  with a show False by simp
qed

lemma round_half_even_error: "\<bar>of_int (round_half_even y) - y\<bar> \<le> 1 / 2"
proof -
  have "of_int \<lfloor>y\<rfloor> \<le> y" "y < of_int \<lfloor>y\<rfloor> + 1" by linarith+
  then show ?thesis by (auto simp: round_half_even_def Let_def)
qed

lemma round_half_even_nonneg: "0 \<le> y \<Longrightarrow> 0 \<le> round_half_even y"
  by (auto simp: round_half_even_def Let_def)

lemma round_double_pos:
  assumes "0 < x"
  shows "round_double x =
    of_int (round_half_even (x / 2 powi (max (floor_log2 x) (- 1022) - 52)))
      * 2 powi (max (floor_log2 x) (- 1022) - 52)"
  using assms by (simp add: round_double_def Let_def)

lemma round_double_nonneg: "0 \<le> x \<Longrightarrow> 0 \<le> round_double x"
proof (cases "x = 0")
  case True
  then show ?thesis by (simp add: round_double_def)
next
  case False
  assume "0 \<le> x"
  with False have x: "0 < x" by simp
  have "0 \<le> x / 2 powi (max (floor_log2 x) (- 1022) - 52)" using x by simp
  then show ?thesis using x by (simp add: round_double_pos round_half_even_nonneg)
qed

lemma round_double_error_unit:
  assumes "0 < x"
  shows "\<bar>round_double x - x\<bar> \<le> 2 powi (max (floor_log2 x) (- 1022) - 52) / 2"
proof -
  let ?u = "(2::rat) powi (max (floor_log2 x) (- 1022) - 52)"
  have u: "0 < ?u" by simp
  have "round_double x - x = (of_int (round_half_even (x / ?u)) - x / ?u) * ?u"
    using u by (simp add: round_double_pos [OF assms] left_diff_distrib)
  then have "\<bar>round_double x - x\<bar> = \<bar>of_int (round_half_even (x / ?u)) - x / ?u\<bar> * ?u"
    using u by (simp add: abs_mult)
  also have "\<dots> \<le> 1 / 2 * ?u"
    using round_half_even_error [of "x / ?u"] u by (intro mult_right_mono) simp_all
  finally show ?thesis by simp
qed

lemma round_double_error_normal:
  assumes "2 powi (- 1022) \<le> x"
  shows "\<bar>round_double x - x\<bar> \<le> x / 2 ^ 53"
proof -
  have x: "0 < x" using assms zero_less_power_int [of "2::rat" "- 1022"] by linarith
  have "(2::rat) powi (- 1022) < 2 powi (floor_log2 x + 1)"
    using assms floor_log2_bounds(2) [OF x] by linarith
  then have "- 1022 < floor_log2 x + 1" by (rule powi2_less_imp)
  then have e: "max (floor_log2 x) (- 1022) = floor_log2 x" by simp
  have "\<bar>round_double x - x\<bar> \<le> 2 powi (floor_log2 x - 52) / 2"
    using round_double_error_unit [OF x] by (simp add: e)
  also have "\<dots> = 2 powi floor_log2 x / 2 ^ 53"
    by (simp add: power_int_diff)
  also have "\<dots> \<le> x / 2 ^ 53"
    using floor_log2_bounds(1) [OF x] by (simp add: divide_right_mono)
  finally show ?thesis .
qed

lemma round_double_small:
  assumes "0 \<le> x" and "x < 2 powi (- 1022)"
  shows "round_double x \<le> x + 2 powi (- 1075)"
proof (cases "x = 0")
  case True
  then show ?thesis by (simp add: round_double_def)
next
  case False
  with assms have x: "0 < x" by simp
  have "(2::rat) powi floor_log2 x < 2 powi (- 1022)"
    using assms floor_log2_bounds(1) [OF x] by linarith
  then have "floor_log2 x < - 1022" by (rule powi2_less_imp)
  then have e: "max (floor_log2 x) (- 1022) = - 1022" by simp
  have "\<bar>round_double x - x\<bar> \<le> 2 powi (- 1022 - 52) / 2"
    using round_double_error_unit [OF x] by (simp add: e)
  also have "\<dots> = 2 powi (- 1075)" by (simp add: power_int_minus field_simps)
  finally show ?thesis by linarith
qed


lemma tiny_le: "(2::rat) powi (- 1022) \<le> 1 / 128"
proof -
  have "(2::rat) powi (- 1022) \<le> 2 powi (- 7)" by (intro power_int_increasing) simp_all
  also have "\<dots> = 1 / 128" by (simp add: power_int_minus_divide)
  finally show ?thesis .
qed

lemma tinier_le: "(2::rat) powi (- 1075) \<le> 1 / 128"
proof -
  have "(2::rat) powi (- 1075) \<le> 2 powi (- 7)" by (intro power_int_increasing) simp_all
  also have "\<dots> = 1 / 128" by (simp add: power_int_minus_divide)
  finally show ?thesis .
qed

lemma round_double_error_any:
  assumes "0 \<le> x"
  shows "\<bar>round_double x - x\<bar> \<le> x / 2 ^ 53 + 1 / 128"
proof (cases "2 powi (- 1022) \<le> x")
  case True
  then show ?thesis using round_double_error_normal [of x] by linarith
next
  case False
  then have "round_double x \<le> x + 2 powi (- 1075)" using assms by (intro round_double_small) simp_all
  moreover have "0 \<le> round_double x" using assms by (rule round_double_nonneg)
  moreover have "x < 1 / 128" using False tiny_le by linarith
  moreover have "0 \<le> x / 2 ^ 53" using assms by simp
  ultimately show ?thesis using tinier_le by linarith
qed

lemma not_overflows:
  assumes "0 \<le> x" and "x \<le> 10 ^ 15"
  shows "\<not> overflows x"
proof -
  have "\<bar>round_double x - x\<bar> \<le> x / 2 ^ 53 + 1 / 128"
    using assms(1) by (rule round_double_error_any)
  moreover have "x / 2 ^ 53 \<le> x" using assms(1) by (simp add: field_simps)
  moreover have "0 \<le> round_double x" using assms(1) by (rule round_double_nonneg)
  ultimately have "\<bar>round_double x\<bar> \<le> 2 * 10 ^ 15 + 1" using assms(2) by linarith
  also have "\<dots> < (2::rat) ^ 1024" by simp
  finally show ?thesis by (simp add: overflows_def)
qed

lemma hundredth_printed:
  assumes "0 \<le> n" and "n < 2 ^ 52"
  shows "\<lfloor>round_double (of_int n / 100) * 100 + 1 / 2\<rfloor> = n"
proof (cases "n = 0")
  case True
  have "\<lfloor>(1 / 2 :: rat)\<rfloor> = 0" by (rule floor_unique) simp_all
  with True show ?thesis by (simp add: round_double_def)
next
  case False
  with assms have n: "1 \<le> n" by simp
  let ?y = "of_int n / 100 :: rat"
  have "(1::rat) \<le> of_int n" using n by simp
  then have "2 powi (- 1022) \<le> ?y" using tiny_le by simp
  then have err: "\<bar>round_double ?y - ?y\<bar> \<le> ?y / 2 ^ 53" by (rule round_double_error_normal)
  have "(of_int n :: rat) < 2 ^ 52" using assms(2) by (metis of_int_less_iff of_int_numeral of_int_power)
  then have "?y / 2 ^ 53 < 1 / 200" by simp
  with err have "\<bar>round_double ?y - ?y\<bar> < 1 / 200" by linarith
  then have "of_int n \<le> round_double ?y * 100 + 1 / 2"
    and "round_double ?y * 100 + 1 / 2 < of_int n + 1" by linarith+
  then show ?thesis by (intro floor_unique) simp_all
qed

lemma Math_round_error: "\<bar>of_int (Math_round z) - z\<bar> \<le> 1 / 2"
proof -
  have "of_int \<lfloor>z + 1 / 2\<rfloor> \<le> z + 1 / 2" "z + 1 / 2 < of_int \<lfloor>z + 1 / 2\<rfloor> + 1" by linarith+
  then show ?thesis unfolding Math_round_def by linarith
qed

lemma rounded_tempo_near:
  assumes "0 \<le> b"
  shows "\<bar>of_int (Math_round (round_double (b * 100))) / 100 - b\<bar> \<le> 1 / 200 + b / 2 ^ 53"
proof (cases "2 powi (- 1022) \<le> b * 100")
  case True
  then have "\<bar>round_double (b * 100) - b * 100\<bar> \<le> b * 100 / 2 ^ 53"
    by (rule round_double_error_normal)
  moreover have "\<bar>of_int (Math_round (round_double (b * 100))) - round_double (b * 100)\<bar> \<le> 1 / 2"
    by (rule Math_round_error)
  moreover define c where "c = b / 2 ^ 53"
  moreover have "b * 100 / 2 ^ 53 = 100 * c" by (simp add: c_def)
  ultimately have "\<bar>of_int (Math_round (round_double (b * 100))) / 100 - b\<bar> \<le> 1 / 200 + c"
    by linarith
  then show ?thesis by (simp add: c_def)
next
  case False
  let ?z = "b * 100"
  have z: "0 \<le> ?z" using assms by simp
  have "round_double ?z \<le> ?z + 2 powi (- 1075)" using z False by (intro round_double_small) simp_all
  then have "round_double ?z + 1 / 2 < 1" using False tiny_le tinier_le by linarith
  moreover have "0 \<le> round_double ?z" using z by (rule round_double_nonneg)
  ultimately have "Math_round (round_double ?z) = 0"
    unfolding Math_round_def by (intro floor_unique) simp_all
  moreover have "b \<le> 1 / 200" using False tiny_le by linarith
  moreover have "0 \<le> b / 2 ^ 53" using assms by simp
  ultimately show ?thesis using assms by simp
qed

lemma rounded_tempo_bounds:
  assumes "0 \<le> b" and "b \<le> 10 ^ 13"
  shows "0 \<le> Math_round (round_double (b * 100))"
    and "Math_round (round_double (b * 100)) < 2 ^ 52"
proof -
  let ?z = "b * 100"
  have z: "0 \<le> ?z" "?z \<le> 10 ^ 15" using assms by simp_all
  have f0: "0 \<le> round_double ?z" using z(1) by (rule round_double_nonneg)
  then show "0 \<le> Math_round (round_double ?z)" by (simp add: Math_round_def)
  have "\<bar>round_double ?z - ?z\<bar> \<le> ?z / 2 ^ 53 + 1 / 128" using z(1) by (rule round_double_error_any)
  moreover have "?z / 2 ^ 53 \<le> 1" using z(2) by simp
  moreover have "(10::rat) ^ 15 + 1 + 1 / 128 + 1 / 2 < 2 ^ 52" by simp
  ultimately have "round_double ?z + 1 / 2 < 2 ^ 52" using z(2) by linarith
  then show "Math_round (round_double ?z) < 2 ^ 52"
    unfolding Math_round_def by (simp add: floor_less_iff)
qed


lemma round_half_even_ge_int: "of_int J \<le> y \<Longrightarrow> J \<le> round_half_even y"
proof -
  assume "of_int J \<le> y"
  then have "J \<le> \<lfloor>y\<rfloor>" by (simp add: le_floor_iff)
  moreover have "\<lfloor>y\<rfloor> \<le> round_half_even y" by (simp add: round_half_even_def Let_def)
  ultimately show ?thesis by simp
qed

lemma round_half_even_less_int:
  assumes "y < of_int K - 1 / 2"
  shows "round_half_even y < K"
proof -
  have "of_int (round_half_even y) \<le> y + 1 / 2"
    using round_half_even_error [of y] by linarith
  with assms have "(of_int (round_half_even y) :: rat) < of_int K" by linarith
  then show ?thesis by simp
qed

lemma floor_log2_ge: "0 < a \<Longrightarrow> 2 powi n \<le> a \<Longrightarrow> n \<le> floor_log2 a"
proof -
  assume a: "0 < a" and n: "2 powi n \<le> a"
  have "(2::rat) powi n < 2 powi (floor_log2 a + 1)"
    using n floor_log2_bounds(2) [OF a] by linarith
  then have "n < floor_log2 a + 1" by (rule powi2_less_imp)
  then show ?thesis by simp
qed

lemma floor_log2_less: "0 < a \<Longrightarrow> a < 2 powi n \<Longrightarrow> floor_log2 a < n"
proof -
  assume a: "0 < a" and n: "a < 2 powi n"
  have "(2::rat) powi floor_log2 a < 2 powi n"
    using n floor_log2_bounds(1) [OF a] by linarith
  then show ?thesis by (rule powi2_less_imp)
qed

lemma int_over_unit:
  assumes "t \<le> 0"
  shows "\<exists>M. of_int N / (2::rat) powi t = of_int M"
proof -
  have "(2::rat) powi t = 1 / 2 ^ nat (- t)" using assms by (simp add: power_int_def field_simps)
  then have "of_int N / (2::rat) powi t = of_int (N * 2 ^ nat (- t))" by simp
  then show ?thesis ..
qed

lemma floor_quotient_60:
  assumes "is_double s" and "0 \<le> s" and "s < 2 ^ 53"
  shows "\<lfloor>round_double (s / 60)\<rfloor> = \<lfloor>s / 60\<rfloor>"
proof (cases "2 powi (- 1022) \<le> s / 60")
  case False
  let ?q = "s / 60"
  have q0: "0 \<le> ?q" using assms(2) by simp
  have "round_double ?q \<le> ?q + 2 powi (- 1075)" using q0 False by (intro round_double_small) simp_all
  then have "round_double ?q < 1" using False tiny_le tinier_le by linarith
  moreover have "0 \<le> round_double ?q" using q0 by (rule round_double_nonneg)
  ultimately have "\<lfloor>round_double ?q\<rfloor> = 0" by (intro floor_unique) simp_all
  moreover have "?q < 1" using False tiny_le by linarith
  then have "\<lfloor>?q\<rfloor> = 0" using q0 by (intro floor_unique) simp_all
  ultimately show ?thesis by simp
next
  case True
  define q where "q = s / 60"
  define e where "e = floor_log2 q"
  define u where "u = (2::rat) powi (e - 52)"
  define j where "j = \<lfloor>q\<rfloor>"
  define m where "m = round_half_even (q / u)"
  have normal: "2 powi (- 1022) \<le> q" using True by (simp add: q_def)
  have q: "0 < q" using normal zero_less_power_int [of "2::rat" "- 1022"] by linarith
  have s: "0 < s" "s = 60 * q" using q by (simp_all add: q_def)
  have u: "0 < u" by (simp add: u_def)
  have e_lo: "- 1022 \<le> e" unfolding e_def using q normal by (rule floor_log2_ge)
  have "q < 2 powi 48" using assms(3) by (simp add: q_def)
  then have e_hi: "e < 48" unfolding e_def using q by (intro floor_log2_less)
  have fl: "round_double q = of_int m * u"
    using e_lo by (simp add: round_double_pos [OF q] m_def u_def e_def max_def)
  have jq: "of_int j \<le> q" "q < of_int j + 1" unfolding j_def by linarith+
  obtain J where J: "of_int j / u = of_int J"
    unfolding u_def using int_over_unit [of "e - 52" j] e_hi by auto
  obtain K where K: "of_int (j + 1) / u = of_int K"
    unfolding u_def using int_over_unit [of "e - 52" "j + 1"] e_hi by auto
  have lower: "of_int j \<le> round_double q"
  proof -
    have "of_int J \<le> q / u" using jq(1) u by (simp add: J [symmetric] divide_right_mono)
    then have "J \<le> m" unfolding m_def by (rule round_half_even_ge_int)
    then have "of_int J * u \<le> of_int m * u" using u by simp
    moreover have "of_int J * u = of_int j" using J u by (simp add: field_simps)
    ultimately show ?thesis by (simp add: fl)
  qed
  define es where "es = floor_log2 s"
  define us where "us = (2::rat) powi (es - 52)"
  have us: "0 < us" by (simp add: us_def)
  have "(2::rat) powi (e + 5) = 32 * 2 powi e" by (simp add: power_int_add)
  also have "\<dots> \<le> 60 * 2 powi e" by simp
  also have "\<dots> \<le> 60 * q" using floor_log2_bounds(1) [OF q] by (simp add: e_def)
  finally have "(2::rat) powi (e + 5) \<le> s" by (simp add: s(2))
  then have es_lo: "e + 5 \<le> es" unfolding es_def using s(1) by (intro floor_log2_ge)
  have "s < 2 powi 53" using assms(3) by simp
  then have es_hi: "es < 53" unfolding es_def using s(1) by (intro floor_log2_less)
  have "round_double s = s" using assms(1) by (simp add: is_double_def)
  then have "s = of_int (round_half_even (s / us)) * us"
    using es_lo e_lo by (simp add: round_double_pos [OF s(1)] us_def es_def max_def)
  then obtain ms where ms: "s = of_int ms * us" ..
  obtain M where M: "of_int (60 * (j + 1)) / us = of_int M"
    unfolding us_def using int_over_unit [of "es - 52" "60 * (j + 1)"] es_hi by auto
  have gap: "us \<le> 60 * of_int (j + 1) - s"
  proof -
    have "s < 60 * of_int (j + 1)" using jq(2) by (simp add: s(2))
    moreover have "60 * of_int (j + 1) = of_int M * us" using M us by (simp add: field_simps)
    ultimately have "of_int ms * us < of_int M * us" using ms by simp
    then have "(of_int ms :: rat) < of_int M" using us by simp
    then have "ms + 1 \<le> M" by simp
    then have "(of_int ms :: rat) + 1 \<le> of_int M" by (metis of_int_1 of_int_add of_int_le_iff)
    then have "(of_int ms + 1) * us \<le> of_int M * us" using us by simp
    then show ?thesis using ms \<open>60 * of_int (j + 1) = of_int M * us\<close>
      by (simp add: algebra_simps)
  qed
  have "32 * u = 2 powi (e + 5 - 52)" by (simp add: u_def power_int_add power_int_diff)
  also have "\<dots> \<le> us" unfolding us_def using es_lo by (intro power_int_increasing) simp_all
  finally have "32 * u \<le> us" .
  with gap u have "30 * u < 60 * of_int (j + 1) - 60 * q" by (simp add: s(2))
  then have "q + u / 2 < of_int (j + 1)" by simp
  then have "(q + u / 2) / u < of_int (j + 1) / u" using u by (simp add: divide_strict_right_mono)
  moreover have "(q + u / 2) / u = q / u + 1 / 2" using u by (simp add: add_divide_distrib)
  ultimately have "q / u + 1 / 2 < of_int K" unfolding K by simp
  then have "q / u < of_int K - 1 / 2" by linarith
  then have "m < K" unfolding m_def by (rule round_half_even_less_int)
  then have "(of_int m :: rat) < of_int K" by simp
  then have "of_int m * u < of_int K * u" using u by simp
  moreover have "of_int K * u = of_int (j + 1)" using K u by (simp add: field_simps)
  ultimately have upper: "round_double q < of_int j + 1" by (simp add: fl)
  have "\<lfloor>round_double q\<rfloor> = j" using lower upper by (intro floor_unique)
  then show ?thesis by (simp add: q_def j_def)
qed

lemma toFixed_hundredths:
  assumes "0 \<le> n" and "n < 2 ^ 52"
  shows "toFixed rt 2 (round_double (of_int n / 100)) =
           int_digits (n div 100) @ ''.'' @ zero_pad_left 2 (int_digits (n mod 100))"
proof -
  let ?x = "of_int n / (100::rat)"
  have x0: "0 \<le> ?x" using assms(1) by simp
  have r0: "0 \<le> round_double ?x" using x0 by (rule round_double_nonneg)
  have "of_int n < (2::rat) ^ 52" using assms(2) by (simp flip: of_int_less_iff)
  then have x1: "?x < 2 ^ 52" by simp
  have "\<bar>round_double ?x - ?x\<bar> \<le> ?x / 2 ^ 53 + 1 / 128"
    using x0 by (rule round_double_error_any)
  moreover have "?x / 2 ^ 53 < 1" using x1 by simp
  ultimately have "round_double ?x < 2 ^ 52 + 2" using x1 by linarith
  also have "\<dots> < (10::rat) ^ 21" by simp
  finally have r1: "round_double ?x < 10 ^ 21" .
  show ?thesis
    using toFixed_decimal [OF r0 r1, of 2 rt] hundredth_printed [OF assms]
    by (simp add: Let_def)
qed

section \<open>Time formatting\<close>

lemma js_rem_60: "0 \<le> s \<Longrightarrow> js_rem s 60 = s - 60 * of_int \<lfloor>s / 60\<rfloor>"
  by (simp add: js_rem_def Let_def)

lemma js_rem_60_bounds:
  fixes s :: rat
  assumes "0 \<le> s"
  shows "0 \<le> s - 60 * of_int \<lfloor>s / 60\<rfloor>" and "s - 60 * of_int \<lfloor>s / 60\<rfloor> < 60"
proof -
  have "of_int \<lfloor>s / 60\<rfloor> \<le> s / 60" by (rule of_int_floor_le)
  then show "0 \<le> s - 60 * of_int \<lfloor>s / 60\<rfloor>" by simp
  have "s / 60 < of_int \<lfloor>s / 60\<rfloor> + 1" using floor_correct [of "s / 60"] by simp
  then show "s - 60 * of_int \<lfloor>s / 60\<rfloor> < 60" by (simp add: field_simps)
qed

lemma toFixed_three_decimals:
  "0 \<le> y \<Longrightarrow> y < 10 ^ 21 \<Longrightarrow> toFixed rt 3 y = three_decimals y"
  using toFixed_decimal [of y 3 rt] by (simp add: three_decimals_def)

lemma number_toString_int_digits:
  "0 \<le> m \<Longrightarrow> m < 10 ^ 21 \<Longrightarrow> number_toString_int rt m = int_digits m"
  by (simp add: number_toString_int_def)

lemma formatTime_double_quotient:
  assumes "0 \<le> s"
  shows "formatTime rt s =
           zero_pad_left 2 (number_toString_int rt \<lfloor>round_double (s / 60)\<rfloor>) @ '':'' @
           zero_pad_left 6 (three_decimals (s - 60 * of_int \<lfloor>s / 60\<rfloor>))"
proof -
  let ?y = "s - 60 * of_int \<lfloor>s / 60\<rfloor>"
  have y: "0 \<le> ?y" "?y < 10 ^ 21"
    using js_rem_60_bounds [OF assms] by simp_all
  show ?thesis
    using assms y
    by (simp add: formatTime_def Let_def js_rem_60 toFixed_three_decimals padStart_zero)
qed

lemma formatTime_decimal:
  assumes "is_double s" and "0 \<le> s" and "s < 2 ^ 53"
  shows "formatTime rt s =
           zero_pad_left 2 (int_digits \<lfloor>s / 60\<rfloor>) @ '':'' @
           zero_pad_left 6 (three_decimals (s - 60 * of_int \<lfloor>s / 60\<rfloor>))"
proof -
  have same: "\<lfloor>round_double (s / 60)\<rfloor> = \<lfloor>s / 60\<rfloor>"
    using assms by (rule floor_quotient_60)
  have "number_toString_int rt \<lfloor>s / 60\<rfloor> = int_digits \<lfloor>s / 60\<rfloor>"
  proof (rule number_toString_int_digits)
    show "0 \<le> \<lfloor>s / 60\<rfloor>" using assms(2) by simp
    have "s / 60 < 10 ^ 21" using assms(3) by simp
    then show "\<lfloor>s / 60\<rfloor> < 10 ^ 21" by (simp add: floor_less_iff)
  qed
  then show ?thesis using formatTime_double_quotient [OF assms(2), of rt] by (simp add: same)
qed

lemma formatTime_zero: "formatTime rt 0 = ''00:00.000''"
proof -
  have "is_double 0" by (simp add: is_double_def round_double_def)
  then have "formatTime rt 0 =
      zero_pad_left 2 (int_digits \<lfloor>(0::rat) / 60\<rfloor>) @ '':'' @
      zero_pad_left 6 (three_decimals (0 - 60 * of_int \<lfloor>(0::rat) / 60\<rfloor>))"
    by (rule formatTime_decimal) simp_all
  also have "\<dots> = ''00:00.000''" by code_simp
  finally show ?thesis .
qed

lemma formatTime_rounds_up: "formatTime rt (122879 / 2048) = ''00:60.000''"
proof -
  have "round_double (122879 / 2048) = 122879 / 2048" by code_simp
  then have "is_double (122879 / 2048)" by (simp add: is_double_def)
  then have "formatTime rt (122879 / 2048) =
      zero_pad_left 2 (int_digits \<lfloor>(122879 / 2048 :: rat) / 60\<rfloor>) @ '':'' @
      zero_pad_left 6 (three_decimals
        (122879 / 2048 - 60 * of_int \<lfloor>(122879 / 2048 :: rat) / 60\<rfloor>))"
    by (rule formatTime_decimal) simp_all
  also have "\<dots> = ''00:60.000''" by code_simp
  finally show ?thesis .
qed

text \<open>
  C10. For every non-negative double \<open>s\<close> below \<open>2^53\<close>, \<^verbatim>\<open>formatTime(s)\<close> is
  \<open>floor(s/60)\<close> padded on the left with zeros to at least two characters, a colon, and
  \<open>s mod 60\<close> written with exactly three decimal places and padded on the left with zeros
  to at least six characters. For every non-negative \<open>s\<close> the same holds of the minutes
  that the code computes, the floor of the double quotient \<^verbatim>\<open>seconds / 60\<close>, written as
  \<^verbatim>\<open>Number::toString\<close> writes them. From \<open>2^53\<close> on the double quotient can reach the
  next integer where the exact one does not, as it does at \<open>s = 69073404744817976\<close>.
\<close>

theorem formatTime_layout:
  assumes "0 \<le> s"
  shows "formatTime rt s =
           zero_pad_left 2 (number_toString_int rt \<lfloor>round_double (s / 60)\<rfloor>) @ '':'' @
           zero_pad_left 6 (three_decimals (s - 60 * of_int \<lfloor>s / 60\<rfloor>))
         \<and> (is_double s \<and> s < 2 ^ 53 \<longrightarrow>
             formatTime rt s =
               zero_pad_left 2 (int_digits \<lfloor>s / 60\<rfloor>) @ '':'' @
               zero_pad_left 6 (three_decimals (s - 60 * of_int \<lfloor>s / 60\<rfloor>)))"
proof (intro conjI impI)
  show "formatTime rt s =
      zero_pad_left 2 (number_toString_int rt \<lfloor>round_double (s / 60)\<rfloor>) @ '':'' @
      zero_pad_left 6 (three_decimals (s - 60 * of_int \<lfloor>s / 60\<rfloor>))"
    using assms by (rule formatTime_double_quotient)
next
  assume "is_double s \<and> s < 2 ^ 53"
  then show "formatTime rt s =
      zero_pad_left 2 (int_digits \<lfloor>s / 60\<rfloor>) @ '':'' @
      zero_pad_left 6 (three_decimals (s - 60 * of_int \<lfloor>s / 60\<rfloor>))"
    using assms by (intro formatTime_decimal) simp_all
qed

theorem formatTime_layout_witness:
  "(0::rat) \<le> 131 / 2 \<and> is_double (131 / 2) \<and> (131 / 2 :: rat) < 2 ^ 53 \<and>
   formatTime example_runtime (131 / 2) = ''01:05.500''"
proof -
  have h: "(0::rat) \<le> 131 / 2" by simp
  have "round_double (131 / 2) = 131 / 2" by code_simp
  then have d: "is_double (131 / 2)" by (simp add: is_double_def)
  have b: "(131 / 2 :: rat) < 2 ^ 53" by simp
  have "formatTime example_runtime (131 / 2) =
      zero_pad_left 2 (int_digits \<lfloor>(131 / 2 :: rat) / 60\<rfloor>) @ '':'' @
      zero_pad_left 6 (three_decimals (131 / 2 - 60 * of_int \<lfloor>(131 / 2 :: rat) / 60\<rfloor>))"
    using formatTime_layout [OF h, of example_runtime] d b by blast
  also have "\<dots> = ''01:05.500''" by code_simp
  finally show ?thesis using h d b by simp
qed

text \<open>
  The claim without the bound fails: \<open>69073404744817976\<close> is a double, the code writes
  1151223412413633 minutes, and \<open>floor(s/60)\<close> is 1151223412413632.
\<close>

theorem formatTime_layout_counterexample:
  "is_double 69073404744817976 \<and>
   formatTime example_runtime 69073404744817976 = ''1151223412413633:56.000'' \<and>
   zero_pad_left 2 (int_digits \<lfloor>(69073404744817976 :: rat) / 60\<rfloor>) @ '':'' @
     zero_pad_left 6 (three_decimals
       (69073404744817976 - 60 * of_int \<lfloor>(69073404744817976 :: rat) / 60\<rfloor>))
     = ''1151223412413632:56.000'' \<and>
   formatTime example_runtime 69073404744817976 \<noteq>
   zero_pad_left 2 (int_digits \<lfloor>(69073404744817976 :: rat) / 60\<rfloor>) @ '':'' @
     zero_pad_left 6 (three_decimals
       (69073404744817976 - 60 * of_int \<lfloor>(69073404744817976 :: rat) / 60\<rfloor>))"
proof -
  have "round_double 69073404744817976 = 69073404744817976" by code_simp
  then have d: "is_double 69073404744817976" by (simp add: is_double_def)
  have "formatTime example_runtime 69073404744817976 =
      zero_pad_left 2
        (number_toString_int example_runtime \<lfloor>round_double (69073404744817976 / 60)\<rfloor>)
        @ '':'' @
      zero_pad_left 6 (three_decimals
        (69073404744817976 - 60 * of_int \<lfloor>(69073404744817976 :: rat) / 60\<rfloor>))"
    by (rule formatTime_double_quotient) simp
  also have "\<dots> = ''1151223412413633:56.000''" by code_simp
  finally have c: "formatTime example_runtime 69073404744817976 = ''1151223412413633:56.000''" .
  have e: "zero_pad_left 2 (int_digits \<lfloor>(69073404744817976 :: rat) / 60\<rfloor>) @ '':'' @
     zero_pad_left 6 (three_decimals
       (69073404744817976 - 60 * of_int \<lfloor>(69073404744817976 :: rat) / 60\<rfloor>))
     = ''1151223412413632:56.000''" by code_simp
  have f: "formatTime example_runtime 69073404744817976 \<noteq>
   zero_pad_left 2 (int_digits \<lfloor>(69073404744817976 :: rat) / 60\<rfloor>) @ '':'' @
     zero_pad_left 6 (three_decimals
       (69073404744817976 - 60 * of_int \<lfloor>(69073404744817976 :: rat) / 60\<rfloor>))"
    unfolding c e by simp
  from d c e f show ?thesis by (intro conjI)
qed

section \<open>Zoom\<close>

lemma zoom_values_append: "zoom_values (xs @ ys) = zoom_values xs @ zoom_values ys"
  by (induction xs rule: zoom_values.induct) auto

lemma currentZoom_updateZoomDisplay [simp]:
  "currentZoom (updateZoomDisplay rt s) = currentZoom s"
  by (simp add: updateZoomDisplay_def)

lemma effects_updateZoomDisplay [simp]:
  "effects (updateZoomDisplay rt s) = effects s"
  by (simp add: updateZoomDisplay_def)

lemma zoom_ok_updateZoomDisplay [simp]: "zoom_ok (updateZoomDisplay rt s) = zoom_ok s"
  by (simp add: zoom_ok_def)

lemma zoom_ok_zoomIn: "zoom_ok s \<Longrightarrow> zoom_ok (zoomIn rt s)"
  by (auto simp: zoomIn_def Let_def zoom_ok_def zoom_values_append minZoom_def maxZoom_def)

lemma zoom_ok_zoomOut: "zoom_ok s \<Longrightarrow> zoom_ok (zoomOut rt s)"
  by (auto simp: zoomOut_def Let_def zoom_ok_def zoom_values_append minZoom_def maxZoom_def)

lemma zoom_ok_zoomToFit: "zoom_ok s \<Longrightarrow> zoom_ok (zoomToFit rt s)"
  by (auto simp: zoomToFit_def Let_def zoom_ok_def zoom_values_append minZoom_def maxZoom_def)

lemma zoom_ok_initWave: "zoom_ok s \<Longrightarrow> zoom_ok (initWave url filename s)"
  by (auto simp: initWave_def Let_def zoom_ok_def zoom_values_append)

lemma zoom_ok_fileInput_change: "zoom_ok s \<Longrightarrow> zoom_ok (fileInput_change rt selected s)"
  by (auto simp: fileInput_change_def Let_def zoom_ok_def zoom_values_append minZoom_def
      maxZoom_def handleFileUpload_def uploadFileWithProgress_def split: option.splits)

lemma zoom_ok_settle_upload:
  "zoom_ok (fst p) \<Longrightarrow> zoom_ok (settle_upload p)"
  by (auto simp: settle_upload_def handleFileUpload_rejected_def zoom_ok_def split: settle.splits)

lemma zoom_ok_xhr_load: "zoom_ok s \<Longrightarrow> zoom_ok (fst (xhr_load r s))"
  by (simp add: xhr_load_def zoom_ok_def split: option.splits)

lemma zoom_ok_xhr_error: "zoom_ok s \<Longrightarrow> zoom_ok (fst (xhr_error s))"
  by (simp add: xhr_error_def zoom_ok_def)

lemma zoom_ok_xhr_timeout_fired: "zoom_ok s \<Longrightarrow> zoom_ok (fst (xhr_timeout_fired s))"
  by (simp add: xhr_timeout_fired_def zoom_ok_def)

lemma zoom_ok_upload_timer: "zoom_ok s \<Longrightarrow> zoom_ok (upload_timer rt f data s)"
proof -
  assume "zoom_ok s"
  then have "zoom_ok (initWave url filename
      (s\<lparr>uploadProgressContainer_display := a, jobId := b, beats := c,
         uploadProgress_innerHTML := d, analysisDiv_innerHTML := e\<rparr>))" for url filename a b c d e
    by (intro zoom_ok_initWave) (simp add: zoom_ok_def)
  then show ?thesis
    by (simp add: upload_timer_def handleFileUpload_resolved_def Let_def zoom_ok_def)
qed

lemma zoom_ok_processBtn_settled: "zoom_ok s \<Longrightarrow> zoom_ok (processBtn_settled outcome s)"
  by (auto simp: processBtn_settled_def process_failed_def process_succeeded_def
      showComparisonSection_def zoom_ok_def split: fetch_outcome.splits sum.splits)

lemma zoom_ok_initComparisonWaveforms: "zoom_ok s \<Longrightarrow> zoom_ok (initComparisonWaveforms s)"
  by (auto simp: initComparisonWaveforms_def load_if_truthy_def Let_def zoom_ok_def
      zoom_values_append split: option.splits)

lemma zoom_ok_step: "zoom_ok s \<Longrightarrow> zoom_ok (step rt e s)"
proof (cases e)
  case (FileInputChange x)
  then show "zoom_ok s \<Longrightarrow> ?thesis" by (simp add: zoom_ok_fileInput_change)
next
  case (XhrLoad r)
  then show "zoom_ok s \<Longrightarrow> ?thesis"
    by (simp add: zoom_ok_settle_upload zoom_ok_xhr_load)
next
  case XhrError
  then show "zoom_ok s \<Longrightarrow> ?thesis"
    by (simp add: zoom_ok_settle_upload zoom_ok_xhr_error)
next
  case XhrTimeout
  then show "zoom_ok s \<Longrightarrow> ?thesis"
    by (simp add: zoom_ok_settle_upload zoom_ok_xhr_timeout_fired)
next
  case (UploadTimer f d)
  then show "zoom_ok s \<Longrightarrow> ?thesis" by (simp add: zoom_ok_upload_timer)
next
  case (WsReady filename duration)
  then show "zoom_ok s \<Longrightarrow> ?thesis"
    by (simp add: ws_ready_def) (simp add: zoom_ok_def minZoom_def maxZoom_def)
next
  case (WsSeek t)
  then show "zoom_ok s \<Longrightarrow> ?thesis" by (simp add: ws_seek_def zoom_ok_def)
next
  case (WsAudioprocess t)
  then show "zoom_ok s \<Longrightarrow> ?thesis" by (simp add: ws_audioprocess_def zoom_ok_def)
next
  case WsPlay
  then show "zoom_ok s \<Longrightarrow> ?thesis" by (simp add: ws_play_def zoom_ok_def)
next
  case WsPause
  then show "zoom_ok s \<Longrightarrow> ?thesis" by (simp add: ws_pause_def zoom_ok_def)
next
  case WsFinish
  then show "zoom_ok s \<Longrightarrow> ?thesis" by (simp add: ws_finish_def zoom_ok_def)
next
  case PlayClick
  then show "zoom_ok s \<Longrightarrow> ?thesis"
    by (simp add: playBtn_click_def zoom_ok_def zoom_values_append)
next
  case ZoomInClick
  then show "zoom_ok s \<Longrightarrow> ?thesis" by (simp add: zoom_ok_zoomIn)
next
  case ZoomOutClick
  then show "zoom_ok s \<Longrightarrow> ?thesis" by (simp add: zoom_ok_zoomOut)
next
  case ZoomFitClick
  then show "zoom_ok s \<Longrightarrow> ?thesis" by (simp add: zoom_ok_zoomToFit)
next
  case ProcessClick
  then show "zoom_ok s \<Longrightarrow> ?thesis"
    by (auto simp: processBtn_click_def zoom_ok_def zoom_values_append split: option.splits)
next
  case (ProcessSettled outcome)
  then show "zoom_ok s \<Longrightarrow> ?thesis" by (simp add: zoom_ok_processBtn_settled)
next
  case ComparisonTimer
  then show "zoom_ok s \<Longrightarrow> ?thesis" by (simp add: zoom_ok_initComparisonWaveforms)
next
  case (KeyDown target_is_input key)
  then show "zoom_ok s \<Longrightarrow> ?thesis"
    by (simp add: keydown_def zoom_ok_zoomIn zoom_ok_zoomOut zoom_ok_zoomToFit)
       (simp add: playBtn_click_def zoom_ok_def zoom_values_append)
next
  case (Wheel ctrlKey deltaY)
  then show "zoom_ok s \<Longrightarrow> ?thesis" by (simp add: wheel_def zoom_ok_zoomIn zoom_ok_zoomOut)
next
  case DomContentLoaded
  then show "zoom_ok s \<Longrightarrow> ?thesis" by (simp add: domContentLoaded_def zoom_ok_def)
qed

lemma zoom_ok_run: "zoom_ok s \<Longrightarrow> zoom_ok (run rt es s)"
  by (induction es arbitrary: s) (auto simp: zoom_ok_step)

lemma zoom_display_examples:
  "zoomLevelDisplay_text (updateZoomDisplay rt (s\<lparr>currentZoom := 3 / 2\<rparr>)) = ''1.5x''"
  "zoomLevelDisplay_text (updateZoomDisplay rt (s\<lparr>currentZoom := 729 / 64\<rparr>)) = ''11x''"
proof -
  have "toFixed rt 1 (3 / 2) = ''1.5''"
    using toFixed_decimal [of "3 / 2" 1 rt] by simp code_simp
  then show "zoomLevelDisplay_text (updateZoomDisplay rt (s\<lparr>currentZoom := 3 / 2\<rparr>)) = ''1.5x''"
    by (simp add: updateZoomDisplay_def)
  have "Math_round (729 / 64) = 11" by code_simp
  moreover have "int_digits 11 = ''11''" by code_simp
  ultimately show
    "zoomLevelDisplay_text (updateZoomDisplay rt (s\<lparr>currentZoom := 729 / 64\<rparr>)) = ''11x''"
    by (simp add: updateZoomDisplay_def number_toString_int_def)
qed

text \<open>
  C8. Starting from \<open>currentZoom = minZoom\<close>, whatever handlers run (among them
  \<^verbatim>\<open>zoomIn\<close>, \<^verbatim>\<open>zoomOut\<close> and \<^verbatim>\<open>zoomToFit\<close>, the steps of \<open>ZoomInClick\<close>,
  \<open>ZoomOutClick\<close> and \<open>ZoomFitClick\<close>), the zoom level stays within
  \<open>[minZoom, maxZoom] = [1, 100]\<close> and every value passed to the waveform's \<^verbatim>\<open>zoom\<close> is at
  least 50. Rounding a product or a quotient to a double is monotone and leaves 1 and
  100 fixed, so the bounds are those of the doubles as well.
\<close>

theorem zoom_invariant:
  assumes "currentZoom s = minZoom" and "zoom_values (effects s) = []"
  shows "minZoom = 1 \<and> maxZoom = 100 \<and>
         1 \<le> currentZoom (run rt es s) \<and> currentZoom (run rt es s) \<le> 100 \<and>
         (\<forall>pixelsPerSecond \<in> set (zoom_values (effects (run rt es s))). 50 \<le> pixelsPerSecond)"
proof -
  have "zoom_ok s" using assms by (simp add: zoom_ok_def minZoom_def maxZoom_def)
  then have "zoom_ok (run rt es s)" by (rule zoom_ok_run)
  then show ?thesis by (simp add: zoom_ok_def minZoom_def maxZoom_def list_all_iff)
qed

theorem zoom_invariant_witness:
  "\<forall>rt page.
     currentZoom ((script_loaded page)\<lparr>ws := True\<rparr>) = minZoom \<and>
     zoom_values (effects ((script_loaded page)\<lparr>ws := True\<rparr>)) = [] \<and>
     1 \<le> currentZoom (run rt [ZoomInClick, ZoomInClick, ZoomOutClick]
            ((script_loaded page)\<lparr>ws := True\<rparr>)) \<and>
     currentZoom (run rt [ZoomInClick, ZoomInClick, ZoomOutClick]
            ((script_loaded page)\<lparr>ws := True\<rparr>)) \<le> 100 \<and>
     (\<forall>pixelsPerSecond \<in> set (zoom_values (effects
         (run rt [ZoomInClick, ZoomInClick, ZoomOutClick]
            ((script_loaded page)\<lparr>ws := True\<rparr>)))).
        50 \<le> pixelsPerSecond) \<and>
     zoom_values (effects (run rt [ZoomInClick, ZoomInClick, ZoomOutClick]
            ((script_loaded page)\<lparr>ws := True\<rparr>))) = [75, 225 / 2, 75]"
proof (intro allI)
  fix rt page
  let ?s = "(script_loaded page)\<lparr>ws := True\<rparr>"
  let ?es = "[ZoomInClick, ZoomInClick, ZoomOutClick]"
  have a: "currentZoom ?s = minZoom"
    by (simp add: script_loaded_def minZoom_def)
  have b: "zoom_values (effects ?s) = []"
    by (simp add: script_loaded_def)
  have c: "zoom_values (effects (run rt ?es ?s)) = [75, 225 / 2, 75]"
    by (simp add: script_loaded_def zoomIn_def zoomOut_def Let_def minZoom_def maxZoom_def
        updateZoomDisplay_def)
  show "currentZoom ?s = minZoom \<and> zoom_values (effects ?s) = [] \<and>
     1 \<le> currentZoom (run rt ?es ?s) \<and> currentZoom (run rt ?es ?s) \<le> 100 \<and>
     (\<forall>pixelsPerSecond \<in> set (zoom_values (effects (run rt ?es ?s))). 50 \<le> pixelsPerSecond) \<and>
     zoom_values (effects (run rt ?es ?s)) = [75, 225 / 2, 75]"
    using a b c zoom_invariant [OF a b, of rt ?es] by blast
qed

section \<open>Processing\<close>

lemma anchorTime_updateZoomDisplay [simp]:
  "anchorTime (updateZoomDisplay rt s) = anchorTime s"
  by (simp add: updateZoomDisplay_def)

lemma anchorTime_zoom [simp]:
  "anchorTime (zoomIn rt s) = anchorTime s"
  "anchorTime (zoomOut rt s) = anchorTime s"
  "anchorTime (zoomToFit rt s) = anchorTime s"
  by (simp_all add: zoomIn_def zoomOut_def zoomToFit_def Let_def)

lemma anchorTime_settle_upload [simp]:
  "anchorTime (settle_upload p) = anchorTime (fst p)"
  by (simp add: settle_upload_def handleFileUpload_rejected_def split: settle.splits)

lemma anchorTime_xhr [simp]:
  "anchorTime (fst (xhr_load r s)) = anchorTime s"
  "anchorTime (fst (xhr_error s)) = anchorTime s"
  "anchorTime (fst (xhr_timeout_fired s)) = anchorTime s"
  by (simp_all add: xhr_load_def xhr_error_def xhr_timeout_fired_def split: option.splits)

lemma anchorTime_upload_timer [simp]:
  "anchorTime (upload_timer rt f data s) = anchorTime s"
  by (simp add: upload_timer_def handleFileUpload_resolved_def initWave_def Let_def)

lemma anchorTime_processBtn_click [simp]:
  "anchorTime (processBtn_click rt s) = anchorTime s"
  by (simp add: processBtn_click_def split: option.splits)

lemma anchorTime_processBtn_settled [simp]:
  "anchorTime (processBtn_settled outcome s) = anchorTime s"
  by (simp add: processBtn_settled_def process_failed_def process_succeeded_def
      showComparisonSection_def split: fetch_outcome.splits sum.splits)

lemma anchorTime_initComparisonWaveforms [simp]:
  "anchorTime (initComparisonWaveforms s) = anchorTime s"
  by (simp add: initComparisonWaveforms_def load_if_truthy_def Let_def split: option.splits)

lemma anchorTime_fileInput_change:
  "anchorTime (fileInput_change rt selected s) =
     (case selected of None \<Rightarrow> anchorTime s | Some f \<Rightarrow> None)"
  by (simp add: fileInput_change_def Let_def handleFileUpload_def uploadFileWithProgress_def
      split: option.splits)

lemma anchorTime_step_not_seek:
  "(\<exists>t. e = WsSeek t) \<or> anchorTime (step rt e s) = None \<or>
   anchorTime (step rt e s) = anchorTime s"
  by (cases e)
     (simp_all add: anchorTime_fileInput_change ws_ready_def ws_audioprocess_def ws_play_def
       ws_pause_def ws_finish_def playBtn_click_def keydown_def wheel_def domContentLoaded_def
       split: option.splits)

lemma processBtn_click_guard:
  "jobId s = None \<or> jobId s = Some [] \<or> anchorTime s = None \<Longrightarrow> processBtn_click rt s = s"
  by (auto simp: processBtn_click_def split: option.splits)

text \<open>
  C9. The click handler of the process button returns the page as it is, with nothing
  sent, when \<open>jobId\<close> is \<^verbatim>\<open>null\<close> (or empty) or \<open>anchorTime\<close> is \<^verbatim>\<open>null\<close>. Only the
  \<^verbatim>\<open>seek\<close> handler of a loaded waveform turns \<open>anchorTime\<close> from \<^verbatim>\<open>null\<close> into a value,
  and selecting a file resets it to \<^verbatim>\<open>null\<close>.
\<close>

theorem process_needs_job_and_anchor:
  "(jobId s = None \<or> jobId s = Some [] \<or> anchorTime s = None \<longrightarrow> processBtn_click rt s = s) \<and>
   (anchorTime s = None \<and> anchorTime (step rt e s) \<noteq> None \<longrightarrow> (\<exists>t. e = WsSeek t) \<and> ws s) \<and>
   anchorTime (step rt (FileInputChange (Some f)) s) = None"
proof (intro conjI impI)
  assume "jobId s = None \<or> jobId s = Some [] \<or> anchorTime s = None"
  then show "processBtn_click rt s = s" by (rule processBtn_click_guard)
next
  assume a: "anchorTime s = None \<and> anchorTime (step rt e s) \<noteq> None"
  then show "\<exists>t. e = WsSeek t" using anchorTime_step_not_seek [of e rt s] by force
  then obtain t where "e = WsSeek t" ..
  with a show "ws s" by (cases "ws s") auto
next
  show "anchorTime (step rt (FileInputChange (Some f)) s) = None"
    by (simp add: anchorTime_fileInput_change)
qed

theorem process_needs_job_and_anchor_witness:
  "\<forall>rt page f.
     jobId (script_loaded page) = None \<and>
     processBtn_click rt (script_loaded page) = script_loaded page \<and>
     anchorTime ((script_loaded page)\<lparr>ws := True\<rparr>) = None \<and>
     anchorTime (step rt (WsSeek 3) ((script_loaded page)\<lparr>ws := True\<rparr>)) = Some 3 \<and>
     (\<exists>t. WsSeek 3 = WsSeek t) \<and> ws ((script_loaded page)\<lparr>ws := True\<rparr>) \<and>
     anchorTime (step rt (FileInputChange (Some f))
       (step rt (WsSeek 3) ((script_loaded page)\<lparr>ws := True\<rparr>))) = None"
proof (intro allI)
  fix rt page f
  let ?s = "(script_loaded page)\<lparr>ws := True\<rparr>"
  have a: "jobId (script_loaded page) = None" by (simp add: script_loaded_def)
  have b: "anchorTime ?s = None" by (simp add: script_loaded_def)
  have c: "anchorTime (step rt (WsSeek 3) ?s) = Some 3" by (simp add: ws_seek_def)
  show "jobId (script_loaded page) = None \<and>
     processBtn_click rt (script_loaded page) = script_loaded page \<and>
     anchorTime ?s = None \<and> anchorTime (step rt (WsSeek 3) ?s) = Some 3 \<and>
     (\<exists>t. WsSeek 3 = WsSeek t) \<and> ws ?s \<and>
     anchorTime (step rt (FileInputChange (Some f)) (step rt (WsSeek 3) ?s)) = None"
    using a b c
      process_needs_job_and_anchor [of "script_loaded page" rt "WsSeek 3" f]
      process_needs_job_and_anchor [of ?s rt "WsSeek 3" f]
      process_needs_job_and_anchor [of "step rt (WsSeek 3) ?s" rt "WsSeek 3" f]
    by simp
qed

text \<open>
  C1. A click on the process button with a job id and an anchor time set sends exactly
  one request: a POST to \<^verbatim>\<open>/api/process\<close> whose JSON body has the six members
  \<open>job_id\<close>, \<open>target_bpm\<close>, \<open>strength\<close>, \<open>anchor_time\<close>, \<open>crossfade_ms\<close> and
  \<open>engine\<close>, in this order. \<open>target_bpm\<close> and \<open>strength\<close> are \<^verbatim>\<open>parseFloat\<close> of the two
  inputs, \<open>crossfade_ms\<close> is \<^verbatim>\<open>parseInt(_, 10)\<close> of the third (each written as JSON
  writes a number), and \<open>engine\<close> is \<^verbatim>\<open>"auto"\<close>.
\<close>

theorem process_click_request:
  assumes "jobId s = Some job" and "job \<noteq> []" and "anchorTime s = Some anchor"
  shows "effects (processBtn_click rt s) =
     effects s @
       [Fetch \<lparr>fetch_url = ''/api/process'', fetch_method = ''POST'',
               fetch_headers = [(''Content-Type'', ''application/json'')],
               fetch_body =
                 [(''job_id'', JString job),
                  (''target_bpm'', JSON_value (JSNumber (parseFloat rt (bpmInput_value s)))),
                  (''strength'', JSON_value (JSNumber (parseFloat rt (strengthInput_value s)))),
                  (''anchor_time'', JNumber anchor),
                  (''crossfade_ms'', JSON_value (JSNumber (parseInt10 rt (cfInput_value s)))),
                  (''engine'', JString ''auto'')]\<rparr>]"
  using assms by (simp add: processBtn_click_def process_payload_def JSON_stringify_def)

theorem process_click_request_witness:
  "\<forall>rt page.
     effects (processBtn_click rt
       ((script_loaded page)\<lparr>jobId := Some ''job-1'', anchorTime := Some 10\<rparr>)) =
       [Fetch \<lparr>fetch_url = ''/api/process'', fetch_method = ''POST'',
               fetch_headers = [(''Content-Type'', ''application/json'')],
               fetch_body =
                 [(''job_id'', JString ''job-1''),
                  (''target_bpm'', JSON_value (JSNumber (parseFloat rt (bpmInput_value page)))),
                  (''strength'', JSON_value (JSNumber (parseFloat rt (strengthInput_value page)))),
                  (''anchor_time'', JNumber 10),
                  (''crossfade_ms'', JSON_value (JSNumber (parseInt10 rt (cfInput_value page)))),
                  (''engine'', JString ''auto'')]\<rparr>]"
proof (intro allI)
  fix rt page
  let ?s = "(script_loaded page)\<lparr>jobId := Some ''job-1'', anchorTime := Some 10\<rparr>"
  have a: "jobId ?s = Some ''job-1''" by simp
  have b: "''job-1'' \<noteq> []" by simp
  have c: "anchorTime ?s = Some 10" by simp
  show "effects (processBtn_click rt ?s) =
       [Fetch \<lparr>fetch_url = ''/api/process'', fetch_method = ''POST'',
               fetch_headers = [(''Content-Type'', ''application/json'')],
               fetch_body =
                 [(''job_id'', JString ''job-1''),
                  (''target_bpm'', JSON_value (JSNumber (parseFloat rt (bpmInput_value page)))),
                  (''strength'', JSON_value (JSNumber (parseFloat rt (strengthInput_value page)))),
                  (''anchor_time'', JNumber 10),
                  (''crossfade_ms'', JSON_value (JSNumber (parseInt10 rt (cfInput_value page)))),
                  (''engine'', JString ''auto'')]\<rparr>]"
    using process_click_request [OF a b c, of rt] by (simp add: script_loaded_def)
qed

lemma effects_processBtn_settled: "effects (processBtn_settled outcome s) = effects s"
  by (simp add: processBtn_settled_def process_failed_def process_succeeded_def
      showComparisonSection_def split: fetch_outcome.splits sum.splits)

lemma processBtn_settled_ok:
  assumes "res_ok status"
  shows "processBtn_settled (FetchResponse status body) s = process_succeeded s"
  using assms by (simp add: processBtn_settled_def)

lemma processBtn_settled_not_ok:
  assumes "\<not> res_ok status"
  shows "processBtn_settled (FetchResponse status (Inr err)) s =
           process_failed (detail_or err ''Process failed'') s"
  using assms by (simp add: processBtn_settled_def)

lemma detail_or_cases:
  "detail_or err fallback =
     (case detail err of None \<Rightarrow> fallback | Some d \<Rightarrow> if d = [] then fallback else d)"
  by (simp add: detail_or_def)

text \<open>
  What the continuation does for each answer: on a 2xx status it shows that processing
  is complete and sets up and shows the download links; on another status with a body
  that parses it shows the \<open>detail\<close> string of the body, or \<^verbatim>\<open>Process failed\<close> when
  there is none, and enables the process button again. However the fetch ends, the
  continuation asks nothing more of the server: there is no polling.
\<close>

lemma processBtn_settled_outcomes:
  "(res_ok status \<longrightarrow>
      processStatus_innerHTML (processBtn_settled (FetchResponse status body) s) = complete_html \<and>
      \<not> processBtn_loading (processBtn_settled (FetchResponse status body) s) \<and>
      exportOptions_display (processBtn_settled (FetchResponse status body) s) = ''block'' \<and>
      downloadWavBtn_display (processBtn_settled (FetchResponse status body) s) = ''inline-flex'' \<and>
      downloadMp3Btn_display (processBtn_settled (FetchResponse status body) s) = ''inline-flex'' \<and>
      downloadWavBtn_href (processBtn_settled (FetchResponse status body) s)
        = downloadBaseUrl s @ ''?format=wav'' \<and>
      downloadMp3Btn_href (processBtn_settled (FetchResponse status body) s)
        = downloadBaseUrl s @ ''?format=mp3&bitrate=320'') \<and>
   (\<not> res_ok status \<longrightarrow>
      processStatus_innerHTML (processBtn_settled (FetchResponse status (Inr err)) s)
        = error_html (case detail err of
                        None \<Rightarrow> ''Process failed''
                      | Some d \<Rightarrow> if d = [] then ''Process failed'' else d) \<and>
      \<not> processBtn_disabled (processBtn_settled (FetchResponse status (Inr err)) s) \<and>
      \<not> processBtn_loading (processBtn_settled (FetchResponse status (Inr err)) s)) \<and>
   (\<not> res_ok status \<longrightarrow>
      \<not> processBtn_disabled (processBtn_settled (FetchResponse status body) s)) \<and>
   res_ok status = (200 \<le> status \<and> status \<le> 299) \<and>
   effects (processBtn_settled outcome s) = effects s"
proof (intro conjI impI)
  assume ok: "res_ok status"
  note [simp] = processBtn_settled_ok [OF ok] process_succeeded_def showComparisonSection_def
  show "processStatus_innerHTML (processBtn_settled (FetchResponse status body) s) = complete_html"
    by simp
  show "\<not> processBtn_loading (processBtn_settled (FetchResponse status body) s)" by simp
  show "exportOptions_display (processBtn_settled (FetchResponse status body) s) = ''block''"
    by simp
  show "downloadWavBtn_display (processBtn_settled (FetchResponse status body) s) = ''inline-flex''"
    by simp
  show "downloadMp3Btn_display (processBtn_settled (FetchResponse status body) s) = ''inline-flex''"
    by simp
  show "downloadWavBtn_href (processBtn_settled (FetchResponse status body) s)
        = downloadBaseUrl s @ ''?format=wav''" by simp
  show "downloadMp3Btn_href (processBtn_settled (FetchResponse status body) s)
        = downloadBaseUrl s @ ''?format=mp3&bitrate=320''" by simp
next
  assume bad: "\<not> res_ok status"
  note [simp] = processBtn_settled_not_ok [OF bad] process_failed_def
  show "processStatus_innerHTML (processBtn_settled (FetchResponse status (Inr err)) s)
        = error_html (case detail err of
                        None \<Rightarrow> ''Process failed''
                      | Some d \<Rightarrow> if d = [] then ''Process failed'' else d)"
    by (simp add: detail_or_cases)
  show "\<not> processBtn_disabled (processBtn_settled (FetchResponse status (Inr err)) s)" by simp
  show "\<not> processBtn_loading (processBtn_settled (FetchResponse status (Inr err)) s)" by simp
next
  assume "\<not> res_ok status"
  then show "\<not> processBtn_disabled (processBtn_settled (FetchResponse status body) s)"
    by (simp add: processBtn_settled_def process_failed_def split: sum.splits)
next
  show "res_ok status = (200 \<le> status \<and> status \<le> 299)" by (simp add: res_ok_def)
  show "effects (processBtn_settled outcome s) = effects s" by (rule effects_processBtn_settled)
qed

lemma no_overflow_12000: "\<not> overflows 12000"
  by (rule not_overflows) simp_all

lemma tempo_120:
  "toFixed rt 2 (round_double (of_int (Math_round (round_double 12000)) / 100)) = ''120.00''"
proof -
  have a: "round_double 12000 = 12000" by code_simp
  have b: "Math_round 12000 = 12000" by code_simp
  have "toFixed rt 2 (round_double (of_int 12000 / 100)) =
      int_digits (12000 div 100) @ ''.'' @ zero_pad_left 2 (int_digits (12000 mod 100))"
    by (rule toFixed_hundredths) simp_all
  also have "\<dots> = ''120.00''" by code_simp
  finally show ?thesis by (simp only: a b)
qed

lemmas session_simps =
  upload_and_anchor_def second_upload_during_process_def first_file_def second_file_def
  first_answer_def second_answer_def fileInput_change_def validTypes_def maxSize_def
  handleFileUpload_def uploadFileWithProgress_def updateZoomDisplay_def xhr_load_def
  settle_upload_def upload_timer_def handleFileUpload_resolved_def initWave_def ws_ready_def
  ws_seek_def
  processBtn_click_def processBtn_settled_def process_succeeded_def process_failed_def
  showComparisonSection_def downloadBaseUrl_def res_ok_def script_loaded_def blank_page_def
  example_runtime_def JSON_stringify_def process_payload_def Let_def minZoom_def tempo_120
  no_overflow_12000

text \<open>
  C3. The process request is answered 502 with a body that is not JSON, as a gateway in
  front of the server answers: \<^verbatim>\<open>res.json()\<close> rejects, the \<^verbatim>\<open>catch\<close> block takes the
  rejection, and the page shows the message of the parser, which is neither a \<open>detail\<close>
  string nor \<^verbatim>\<open>Process failed\<close>. The button is enabled again. The \<^verbatim>\<open>load\<close> handler of
  the upload, given the same answer, catches the parse error and rejects with a message
  of its own.
\<close>

theorem process_failure_body_not_json:
  \<open>\<not> res_ok 502 \<and>
   processStatus_innerHTML
      (run example_runtime
        (upload_and_anchor @
          [ProcessClick, ProcessSettled (FetchResponse 502 (Inl ''Unexpected token < in JSON at position 0''))])
        (script_loaded blank_page))
     = ''<span class="text-error">'' @ [CHR 0xE2, CHR 0x9A, CHR 0xA0]
         @ '' Unexpected token < in JSON at position 0</span>'' \<and>
   processStatus_innerHTML
      (run example_runtime
        (upload_and_anchor @
          [ProcessClick, ProcessSettled (FetchResponse 502 (Inl ''Unexpected token < in JSON at position 0''))])
        (script_loaded blank_page))
     \<noteq> ''<span class="text-error">'' @ [CHR 0xE2, CHR 0x9A, CHR 0xA0]
         @ '' Process failed</span>'' \<and>
   \<not> processBtn_disabled
      (run example_runtime
        (upload_and_anchor @
          [ProcessClick, ProcessSettled (FetchResponse 502 (Inl ''Unexpected token < in JSON at position 0''))])
        (script_loaded blank_page)) \<and>
   snd (xhr_load \<lparr>xhr_status = 502, xhr_json_data = None, xhr_json_error = None\<rparr>
          (script_loaded blank_page))
     = Reject ''Upload failed with status 502''\<close>
proof -
  have a: "\<not> res_ok 502" by (simp add: res_ok_def)
  have b: \<open>processStatus_innerHTML
      (run example_runtime
        (upload_and_anchor @
          [ProcessClick, ProcessSettled (FetchResponse 502 (Inl ''Unexpected token < in JSON at position 0''))])
        (script_loaded blank_page))
     = ''<span class="text-error">'' @ [CHR 0xE2, CHR 0x9A, CHR 0xA0]
         @ '' Unexpected token < in JSON at position 0</span>''\<close>
    by (simp add: session_simps error_html_def warning_sign_def)
  have b': \<open>processStatus_innerHTML
      (run example_runtime
        (upload_and_anchor @
          [ProcessClick, ProcessSettled (FetchResponse 502 (Inl ''Unexpected token < in JSON at position 0''))])
        (script_loaded blank_page))
     \<noteq> ''<span class="text-error">'' @ [CHR 0xE2, CHR 0x9A, CHR 0xA0]
         @ '' Process failed</span>''\<close>
    unfolding b by simp
  have c: "\<not> processBtn_disabled
      (run example_runtime
        (upload_and_anchor @
          [ProcessClick, ProcessSettled (FetchResponse 502 (Inl ''Unexpected token < in JSON at position 0''))])
        (script_loaded blank_page))"
    by (simp add: session_simps)
  have "int_digits 502 = ''502''" by code_simp
  then have d: "snd (xhr_load \<lparr>xhr_status = 502, xhr_json_data = None, xhr_json_error = None\<rparr>
          (script_loaded blank_page))
     = Reject ''Upload failed with status 502''"
    by (simp add: xhr_load_def)
  from a b b' c d show ?thesis by (intro conjI)
qed


text \<open>
  \<open>jobId\<close> is assigned by the continuation of a resolved upload only.
\<close>

lemma jobId_updateZoomDisplay [simp]: "jobId (updateZoomDisplay rt s) = jobId s"
  by (simp add: updateZoomDisplay_def)

lemma jobId_zoom [simp]:
  "jobId (zoomIn rt s) = jobId s"
  "jobId (zoomOut rt s) = jobId s"
  "jobId (zoomToFit rt s) = jobId s"
  by (simp_all add: zoomIn_def zoomOut_def zoomToFit_def Let_def)

lemma jobId_settle_upload [simp]: "jobId (settle_upload p) = jobId (fst p)"
  by (simp add: settle_upload_def handleFileUpload_rejected_def split: settle.splits)

lemma jobId_xhr [simp]:
  "jobId (fst (xhr_load r s)) = jobId s"
  "jobId (fst (xhr_error s)) = jobId s"
  "jobId (fst (xhr_timeout_fired s)) = jobId s"
  by (simp_all add: xhr_load_def xhr_error_def xhr_timeout_fired_def split: option.splits)

lemma jobId_fileInput_change [simp]: "jobId (fileInput_change rt selected s) = jobId s"
  by (simp add: fileInput_change_def Let_def handleFileUpload_def uploadFileWithProgress_def
      split: option.splits)

lemma jobId_processBtn_click [simp]: "jobId (processBtn_click rt s) = jobId s"
  by (simp add: processBtn_click_def split: option.splits)

lemma jobId_processBtn_settled [simp]: "jobId (processBtn_settled outcome s) = jobId s"
  by (simp add: processBtn_settled_def process_failed_def process_succeeded_def
      showComparisonSection_def split: fetch_outcome.splits sum.splits)

lemma jobId_initComparisonWaveforms [simp]: "jobId (initComparisonWaveforms s) = jobId s"
  by (simp add: initComparisonWaveforms_def load_if_truthy_def Let_def split: option.splits)







section \<open>Upload\<close>

lemma toFixed_two_decimals:
  "0 \<le> y \<Longrightarrow> y < 10 ^ 21 \<Longrightarrow> toFixed rt 2 y = two_decimals y"
  using toFixed_decimal [of y 2 rt] by (simp add: two_decimals_def)

lemma two_decimals_exact:
  "two_decimals b =
     (let n = Math_round (b * 100)
      in int_digits (n div 100) @ ''.'' @ zero_pad_left 2 (int_digits (n mod 100)))"
  by (simp add: two_decimals_def Math_round_def)

lemma upload_timer_fields:
  \<open>jobId (upload_timer rt f data s) = Some (data_job_id data)\<close>
  \<open>beats (upload_timer rt f data s) = data_beats data\<close>
  \<open>analysisDiv_innerHTML (upload_timer rt f data s) =
     [CHR 0x0A] @ ''      <div style="display: grid; grid-template-columns: 1fr 1fr; gap: var(--spacing-lg); text-align: center;">''
     @ [CHR 0x0A] @ ''        <div>''
     @ [CHR 0x0A] @ ''          <div style="font-size: 18px; font-weight: 500; color: var(--accent-red);">''
          @ toFixed rt 2 (data_bpm_estimate data) @ ''</div>''
     @ [CHR 0x0A] @ ''          <div style="font-size: 11px; color: var(--text-muted); text-transform: uppercase;">BPM Detected</div>''
     @ [CHR 0x0A] @ ''        </div>''
     @ [CHR 0x0A] @ ''        <div>''
     @ [CHR 0x0A] @ ''          <div style="font-size: 18px; font-weight: 500; color: var(--accent-blue);">''
          @ int_digits (int (length (data_beats data))) @ ''</div>''
     @ [CHR 0x0A] @ ''          <div style="font-size: 11px; color: var(--text-muted); text-transform: uppercase;">Beat Points</div>''
     @ [CHR 0x0A] @ ''        </div>''
     @ [CHR 0x0A] @ ''      </div>''
     @ [CHR 0x0A] @ ''    ''\<close>
  \<open>bpmInput_value (upload_timer rt f data s) =
     (if overflows (data_bpm_estimate data * 100)
      then (if data_bpm_estimate data * 100 < 0 then ''-Infinity'' else ''Infinity'')
      else toFixed rt 2
             (round_double
                (of_int (Math_round (round_double (data_bpm_estimate data * 100))) / 100)))\<close>
  by (simp_all add: upload_timer_def handleFileUpload_resolved_def initWave_def Let_def
      analysis_html_def nl_def)

lemma upload_timer_bpmInput:
  assumes "0 \<le> data_bpm_estimate data" and "data_bpm_estimate data \<le> 10 ^ 13"
  shows "bpmInput_value (upload_timer rt f data s) =
     toFixed rt 2
       (round_double (of_int (Math_round (round_double (data_bpm_estimate data * 100))) / 100))"
proof -
  have "\<not> overflows (data_bpm_estimate data * 100)"
    using assms by (intro not_overflows) simp_all
  then show ?thesis by (simp only: upload_timer_fields(4) if_False)
qed

lemma upload_timer_other_members:
  "upload_timer rt f (data\<lparr>data_other_members := members\<rparr>) s = upload_timer rt f data s"
  by (simp add: upload_timer_def handleFileUpload_resolved_def)

text \<open>
  C6. When an upload has succeeded with a tempo \<open>b\<close> between 0 and \<open>10^13\<close>, the client
  stores \<open>job_id\<close> as the current job and \<open>beats\<close> as the beats, shows \<open>b\<close> to the nearest
  hundredth and the number of beats, and pre-fills the target-BPM input with \<open>n / 100\<close>
  written with two decimal places, where \<open>n\<close> is \<^verbatim>\<open>Math.round\<close> of the double product
  \<^verbatim>\<open>bpm_estimate * 100\<close>. That number is within \<open>1/200 + b / 2^53\<close> of \<open>b\<close>, and it is
  \<open>b\<close> to the nearest hundredth whenever the product is exact. Nothing else of the
  response is read: a response that differs only in other members leaves the same page.
\<close>

theorem upload_response_consumed:
  assumes \<open>0 \<le> data_bpm_estimate data\<close> and \<open>data_bpm_estimate data \<le> 10 ^ 13\<close>
  shows \<open>jobId (upload_timer rt f data s) = Some (data_job_id data) \<and>
         beats (upload_timer rt f data s) = data_beats data \<and>
         analysisDiv_innerHTML (upload_timer rt f data s) =
           [CHR 0x0A] @ ''      <div style="display: grid; grid-template-columns: 1fr 1fr; gap: var(--spacing-lg); text-align: center;">''
           @ [CHR 0x0A] @ ''        <div>''
           @ [CHR 0x0A] @ ''          <div style="font-size: 18px; font-weight: 500; color: var(--accent-red);">''
                @ two_decimals (data_bpm_estimate data) @ ''</div>''
           @ [CHR 0x0A] @ ''          <div style="font-size: 11px; color: var(--text-muted); text-transform: uppercase;">BPM Detected</div>''
           @ [CHR 0x0A] @ ''        </div>''
           @ [CHR 0x0A] @ ''        <div>''
           @ [CHR 0x0A] @ ''          <div style="font-size: 18px; font-weight: 500; color: var(--accent-blue);">''
                @ int_digits (int (length (data_beats data))) @ ''</div>''
           @ [CHR 0x0A] @ ''          <div style="font-size: 11px; color: var(--text-muted); text-transform: uppercase;">Beat Points</div>''
           @ [CHR 0x0A] @ ''        </div>''
           @ [CHR 0x0A] @ ''      </div>''
           @ [CHR 0x0A] @ ''    '' \<and>
         (let n = Math_round (round_double (data_bpm_estimate data * 100))
          in bpmInput_value (upload_timer rt f data s) =
               int_digits (n div 100) @ ''.'' @ zero_pad_left 2 (int_digits (n mod 100)) \<and>
             \<bar>of_int n / 100 - data_bpm_estimate data\<bar>
               \<le> 1 / 200 + data_bpm_estimate data / 2 ^ 53) \<and>
         (round_double (data_bpm_estimate data * 100) = data_bpm_estimate data * 100 \<longrightarrow>
            bpmInput_value (upload_timer rt f data s) = two_decimals (data_bpm_estimate data)) \<and>
         upload_timer rt f (data\<lparr>data_other_members := members\<rparr>) s = upload_timer rt f data s\<close>
proof -
  define b where "b = data_bpm_estimate data"
  define n where "n = Math_round (round_double (b * 100))"
  have b: "0 \<le> b" "b \<le> 10 ^ 13" using assms by (simp_all add: b_def)
  have small: "b < 10 ^ 21" using b(2) by simp
  have shown: "toFixed rt 2 b = two_decimals b"
    using b(1) small by (rule toFixed_two_decimals)
  have n: "0 \<le> n" "n < 2 ^ 52"
    unfolding n_def using rounded_tempo_bounds [OF b] by simp_all
  have filled: "bpmInput_value (upload_timer rt f data s) =
      int_digits (n div 100) @ ''.'' @ zero_pad_left 2 (int_digits (n mod 100))"
    using toFixed_hundredths [OF n, of rt] upload_timer_bpmInput [OF assms, of rt f s]
    by (simp add: n_def b_def)
  have near: "\<bar>of_int n / 100 - b\<bar> \<le> 1 / 200 + b / 2 ^ 53"
    unfolding n_def using b(1) by (rule rounded_tempo_near)
  have exact: "bpmInput_value (upload_timer rt f data s) = two_decimals b"
    if "round_double (b * 100) = b * 100"
    using filled that by (simp add: two_decimals_exact n_def Let_def)
  have page: \<open>analysisDiv_innerHTML (upload_timer rt f data s) =
           [CHR 0x0A] @ ''      <div style="display: grid; grid-template-columns: 1fr 1fr; gap: var(--spacing-lg); text-align: center;">''
           @ [CHR 0x0A] @ ''        <div>''
           @ [CHR 0x0A] @ ''          <div style="font-size: 18px; font-weight: 500; color: var(--accent-red);">''
                @ two_decimals (data_bpm_estimate data) @ ''</div>''
           @ [CHR 0x0A] @ ''          <div style="font-size: 11px; color: var(--text-muted); text-transform: uppercase;">BPM Detected</div>''
           @ [CHR 0x0A] @ ''        </div>''
           @ [CHR 0x0A] @ ''        <div>''
           @ [CHR 0x0A] @ ''          <div style="font-size: 18px; font-weight: 500; color: var(--accent-blue);">''
                @ int_digits (int (length (data_beats data))) @ ''</div>''
           @ [CHR 0x0A] @ ''          <div style="font-size: 11px; color: var(--text-muted); text-transform: uppercase;">Beat Points</div>''
           @ [CHR 0x0A] @ ''        </div>''
           @ [CHR 0x0A] @ ''      </div>''
           @ [CHR 0x0A] @ ''    ''\<close>
    using shown by (simp add: upload_timer_fields(3) b_def)
  have 1: "jobId (upload_timer rt f data s) = Some (data_job_id data)"
    by (rule upload_timer_fields(1))
  have 2: "beats (upload_timer rt f data s) = data_beats data"
    by (rule upload_timer_fields(2))
  have 4: "let n = Math_round (round_double (data_bpm_estimate data * 100))
          in bpmInput_value (upload_timer rt f data s) =
               int_digits (n div 100) @ ''.'' @ zero_pad_left 2 (int_digits (n mod 100)) \<and>
             \<bar>of_int n / 100 - data_bpm_estimate data\<bar>
               \<le> 1 / 200 + data_bpm_estimate data / 2 ^ 53"
    using filled near unfolding Let_def n_def b_def by (rule conjI)
  have 5: "round_double (data_bpm_estimate data * 100) = data_bpm_estimate data * 100 \<longrightarrow>
            bpmInput_value (upload_timer rt f data s) = two_decimals (data_bpm_estimate data)"
    using exact by (simp add: b_def)
  have 6: "upload_timer rt f (data\<lparr>data_other_members := members\<rparr>) s
      = upload_timer rt f data s"
    by (rule upload_timer_other_members)
  from 1 2 page 4 5 6 show ?thesis by (intro conjI)
qed

theorem upload_response_consumed_witness:
  \<open>(0::rat) \<le> 987 / 8 \<and> (987 / 8 :: rat) \<le> 10 ^ 13 \<and>
   round_double (987 / 8 * 100) = 987 / 8 * 100 \<and>
   jobId (upload_timer example_runtime \<lparr>file_name = ''song.mp3'', file_type = ''audio/mpeg'', file_size = 1000\<rparr>
      \<lparr>data_job_id = ''job-1'', data_bpm_estimate = 987 / 8,
         data_beats = [1 / 2, 1, 3 / 2], data_other_members = []\<rparr> blank_page) = Some ''job-1'' \<and>
   beats (upload_timer example_runtime \<lparr>file_name = ''song.mp3'', file_type = ''audio/mpeg'', file_size = 1000\<rparr>
      \<lparr>data_job_id = ''job-1'', data_bpm_estimate = 987 / 8,
         data_beats = [1 / 2, 1, 3 / 2], data_other_members = []\<rparr> blank_page) = [1 / 2, 1, 3 / 2] \<and>
   analysisDiv_innerHTML (upload_timer example_runtime \<lparr>file_name = ''song.mp3'', file_type = ''audio/mpeg'', file_size = 1000\<rparr>
      \<lparr>data_job_id = ''job-1'', data_bpm_estimate = 987 / 8,
         data_beats = [1 / 2, 1, 3 / 2], data_other_members = []\<rparr> blank_page) =
         [CHR 0x0A] @ ''      <div style="display: grid; grid-template-columns: 1fr 1fr; gap: var(--spacing-lg); text-align: center;">''
         @ [CHR 0x0A] @ ''        <div>''
         @ [CHR 0x0A] @ ''          <div style="font-size: 18px; font-weight: 500; color: var(--accent-red);">''
              @ ''123.38'' @ ''</div>''
         @ [CHR 0x0A] @ ''          <div style="font-size: 11px; color: var(--text-muted); text-transform: uppercase;">BPM Detected</div>''
         @ [CHR 0x0A] @ ''        </div>''
         @ [CHR 0x0A] @ ''        <div>''
         @ [CHR 0x0A] @ ''          <div style="font-size: 18px; font-weight: 500; color: var(--accent-blue);">''
              @ ''3'' @ ''</div>''
         @ [CHR 0x0A] @ ''          <div style="font-size: 11px; color: var(--text-muted); text-transform: uppercase;">Beat Points</div>''
         @ [CHR 0x0A] @ ''        </div>''
         @ [CHR 0x0A] @ ''      </div>''
         @ [CHR 0x0A] @ ''    '' \<and>
   bpmInput_value (upload_timer example_runtime \<lparr>file_name = ''song.mp3'', file_type = ''audio/mpeg'', file_size = 1000\<rparr>
      \<lparr>data_job_id = ''job-1'', data_bpm_estimate = 987 / 8,
         data_beats = [1 / 2, 1, 3 / 2], data_other_members = []\<rparr> blank_page) = ''123.38''\<close>
proof -
  let ?data = "\<lparr>data_job_id = ''job-1'', data_bpm_estimate = 987 / 8,
         data_beats = [1 / 2, 1, 3 / 2], data_other_members = []\<rparr>"
  let ?f = "\<lparr>file_name = ''song.mp3'', file_type = ''audio/mpeg'', file_size = 1000\<rparr>"
  have a: "0 \<le> data_bpm_estimate ?data" by simp
  have b: "data_bpm_estimate ?data \<le> 10 ^ 13" by simp
  have e: "round_double (987 / 8 * 100) = 987 / 8 * 100" by code_simp
  have c: "two_decimals (987 / 8) = ''123.38''" by code_simp
  have d: "int_digits 3 = ''3''" by code_simp
  have t: "jobId (upload_timer example_runtime ?f ?data blank_page) = Some ''job-1''"
    using upload_response_consumed [OF a b, of example_runtime ?f blank_page] by simp
  have u: "beats (upload_timer example_runtime ?f ?data blank_page) = [1 / 2, 1, 3 / 2]"
    using upload_response_consumed [OF a b, of example_runtime ?f blank_page] by simp
  have v: \<open>analysisDiv_innerHTML (upload_timer example_runtime ?f ?data blank_page) =
         [CHR 0x0A] @ ''      <div style="display: grid; grid-template-columns: 1fr 1fr; gap: var(--spacing-lg); text-align: center;">''
         @ [CHR 0x0A] @ ''        <div>''
         @ [CHR 0x0A] @ ''          <div style="font-size: 18px; font-weight: 500; color: var(--accent-red);">''
              @ ''123.38'' @ ''</div>''
         @ [CHR 0x0A] @ ''          <div style="font-size: 11px; color: var(--text-muted); text-transform: uppercase;">BPM Detected</div>''
         @ [CHR 0x0A] @ ''        </div>''
         @ [CHR 0x0A] @ ''        <div>''
         @ [CHR 0x0A] @ ''          <div style="font-size: 18px; font-weight: 500; color: var(--accent-blue);">''
              @ ''3'' @ ''</div>''
         @ [CHR 0x0A] @ ''          <div style="font-size: 11px; color: var(--text-muted); text-transform: uppercase;">Beat Points</div>''
         @ [CHR 0x0A] @ ''        </div>''
         @ [CHR 0x0A] @ ''      </div>''
         @ [CHR 0x0A] @ ''    ''\<close>
    using upload_response_consumed [OF a b, of example_runtime ?f blank_page] c d by simp
  have w: "bpmInput_value (upload_timer example_runtime ?f ?data blank_page) = ''123.38''"
    using upload_response_consumed [OF a b, of example_runtime ?f blank_page] c e by simp
  have a': "(0::rat) \<le> 987 / 8" by simp
  have b': "(987 / 8 :: rat) \<le> 10 ^ 13" by simp
  from a' b' e t u v w show ?thesis by (intro conjI)
qed

text \<open>
  The claim as it stands fails at the double nearest to 100.005, which lies below it:
  to the nearest hundredth it is 100.00, as the page shows it, and the input is
  pre-filled with 100.01.
\<close>

theorem upload_response_consumed_counterexample:
  \<open>is_double (879653282685911 / 8796093022208) \<and>
   two_decimals (879653282685911 / 8796093022208) = ''100.00'' \<and>
   bpmInput_value (upload_timer example_runtime \<lparr>file_name = ''song.mp3'', file_type = ''audio/mpeg'', file_size = 1000\<rparr>
      \<lparr>data_job_id = ''job-1'', data_bpm_estimate = 879653282685911 / 8796093022208,
         data_beats = [1 / 2, 1], data_other_members = []\<rparr> blank_page) = ''100.01'' \<and>
   bpmInput_value (upload_timer example_runtime \<lparr>file_name = ''song.mp3'', file_type = ''audio/mpeg'', file_size = 1000\<rparr>
      \<lparr>data_job_id = ''job-1'', data_bpm_estimate = 879653282685911 / 8796093022208,
         data_beats = [1 / 2, 1], data_other_members = []\<rparr> blank_page)
     \<noteq> two_decimals (879653282685911 / 8796093022208) \<and>
   analysisDiv_innerHTML (upload_timer example_runtime \<lparr>file_name = ''song.mp3'', file_type = ''audio/mpeg'', file_size = 1000\<rparr>
      \<lparr>data_job_id = ''job-1'', data_bpm_estimate = 879653282685911 / 8796093022208,
         data_beats = [1 / 2, 1], data_other_members = []\<rparr> blank_page) =
       [CHR 0x0A] @ ''      <div style="display: grid; grid-template-columns: 1fr 1fr; gap: var(--spacing-lg); text-align: center;">''
       @ [CHR 0x0A] @ ''        <div>''
       @ [CHR 0x0A] @ ''          <div style="font-size: 18px; font-weight: 500; color: var(--accent-red);">''
            @ ''100.00'' @ ''</div>''
       @ [CHR 0x0A] @ ''          <div style="font-size: 11px; color: var(--text-muted); text-transform: uppercase;">BPM Detected</div>''
       @ [CHR 0x0A] @ ''        </div>''
       @ [CHR 0x0A] @ ''        <div>''
       @ [CHR 0x0A] @ ''          <div style="font-size: 18px; font-weight: 500; color: var(--accent-blue);">''
            @ ''2'' @ ''</div>''
       @ [CHR 0x0A] @ ''          <div style="font-size: 11px; color: var(--text-muted); text-transform: uppercase;">Beat Points</div>''
       @ [CHR 0x0A] @ ''        </div>''
       @ [CHR 0x0A] @ ''      </div>''
       @ [CHR 0x0A] @ ''    ''\<close>
proof -
  let ?data = "\<lparr>data_job_id = ''job-1'', data_bpm_estimate = 879653282685911 / 8796093022208,
         data_beats = [1 / 2, 1], data_other_members = []\<rparr>"
  let ?f = "\<lparr>file_name = ''song.mp3'', file_type = ''audio/mpeg'', file_size = 1000\<rparr>"
  have "round_double (879653282685911 / 8796093022208) = 879653282685911 / 8796093022208"
    by code_simp
  then have d: "is_double (879653282685911 / 8796093022208)" by (simp add: is_double_def)
  have c: "two_decimals (879653282685911 / 8796093022208) = ''100.00''" by code_simp
  have p: "round_double (879653282685911 / 8796093022208 * 100) = 20001 / 2" by code_simp
  have m: "Math_round (20001 / 2) = 10001" by code_simp
  have n: "(0::int) \<le> 10001" "(10001::int) < 2 ^ 52" by simp_all
  have "toFixed example_runtime 2 (round_double (of_int 10001 / 100)) =
      int_digits (10001 div 100) @ ''.'' @ zero_pad_left 2 (int_digits (10001 mod 100))"
    using n by (rule toFixed_hundredths)
  also have "\<dots> = ''100.01''" by code_simp
  finally have t:
    "toFixed example_runtime 2 (round_double (of_int 10001 / 100)) = ''100.01''" .
  have w: "bpmInput_value (upload_timer example_runtime ?f ?data blank_page) = ''100.01''"
    using upload_timer_bpmInput [of ?data example_runtime ?f blank_page]
    by (simp only: upload_response.select_convs p m t) simp
  have b0: "(0::rat) \<le> 879653282685911 / 8796093022208"
    "(879653282685911 / 8796093022208 :: rat) < 10 ^ 21" by simp_all
  have s: "toFixed example_runtime 2 (879653282685911 / 8796093022208) = ''100.00''"
    using toFixed_two_decimals [OF b0, of example_runtime] c by simp
  have k: "int_digits 2 = ''2''" by code_simp
  have v: \<open>analysisDiv_innerHTML (upload_timer example_runtime ?f ?data blank_page) =
       [CHR 0x0A] @ ''      <div style="display: grid; grid-template-columns: 1fr 1fr; gap: var(--spacing-lg); text-align: center;">''
       @ [CHR 0x0A] @ ''        <div>''
       @ [CHR 0x0A] @ ''          <div style="font-size: 18px; font-weight: 500; color: var(--accent-red);">''
            @ ''100.00'' @ ''</div>''
       @ [CHR 0x0A] @ ''          <div style="font-size: 11px; color: var(--text-muted); text-transform: uppercase;">BPM Detected</div>''
       @ [CHR 0x0A] @ ''        </div>''
       @ [CHR 0x0A] @ ''        <div>''
       @ [CHR 0x0A] @ ''          <div style="font-size: 18px; font-weight: 500; color: var(--accent-blue);">''
            @ ''2'' @ ''</div>''
       @ [CHR 0x0A] @ ''          <div style="font-size: 11px; color: var(--text-muted); text-transform: uppercase;">Beat Points</div>''
       @ [CHR 0x0A] @ ''        </div>''
       @ [CHR 0x0A] @ ''      </div>''
       @ [CHR 0x0A] @ ''    ''\<close>
    by (simp add: upload_timer_fields(3) s k)
  have x: "bpmInput_value (upload_timer example_runtime ?f ?data blank_page)
     \<noteq> two_decimals (879653282685911 / 8796093022208)"
    unfolding w c by simp
  from d c w x v show ?thesis by (intro conjI)
qed

text \<open>
  C7. Whichever of its three final events the request fires, the promise of
  \<^verbatim>\<open>uploadFileWithProgress\<close> is settled: \<^verbatim>\<open>load\<close> with a 2xx status and a body that
  parses resolves it with the parsed body (800 ms later); \<^verbatim>\<open>load\<close> with a 2xx status
  and a body that does not parse, \<^verbatim>\<open>load\<close> with another status, \<^verbatim>\<open>error\<close> and
  \<^verbatim>\<open>timeout\<close> each reject it with a message of their own. The request is sent with a
  timeout of 120000 ms.
\<close>

theorem upload_promise_settles:
  "(200 \<le> xhr_status r \<and> xhr_status r < 300 \<and> xhr_json_data r = Some data \<longrightarrow>
      snd (xhr_load r s) = ResolveAfter 800 data \<and>
      promise_after 800 (snd (xhr_load r s)) = Fulfilled data) \<and>
   (200 \<le> xhr_status r \<and> xhr_status r < 300 \<and> xhr_json_data r = None \<longrightarrow>
      promise_after 0 (snd (xhr_load r s)) = Rejected ''Failed to parse server response'') \<and>
   (\<not> (200 \<le> xhr_status r \<and> xhr_status r < 300) \<and> xhr_json_error r = Some err \<longrightarrow>
      promise_after 0 (snd (xhr_load r s)) = Rejected (detail_or err ''Upload failed'')) \<and>
   (\<not> (200 \<le> xhr_status r \<and> xhr_status r < 300) \<and> xhr_json_error r = None \<longrightarrow>
      promise_after 0 (snd (xhr_load r s))
        = Rejected (''Upload failed with status '' @ int_digits (int (xhr_status r)))) \<and>
   promise_after 0 (snd (xhr_error s)) = Rejected ''Network error during upload'' \<and>
   promise_after 0 (snd (xhr_timeout_fired s)) = Rejected ''Upload timeout'' \<and>
   promise_after 800 (snd (xhr_load r s)) \<noteq> Pending \<and>
   effects (uploadFileWithProgress f s) =
     effects s @ [XhrSend \<lparr>xhr_method = ''POST'', xhr_url = ''/api/upload'',
                           xhr_timeout = 120000, xhr_form_file = f\<rparr>]"
  by (simp add: xhr_load_def xhr_error_def xhr_timeout_fired_def uploadFileWithProgress_def
      split: option.splits)

theorem upload_promise_settles_witness:
  "\<forall>s data.
     promise_after 800
       (snd (xhr_load \<lparr>xhr_status = 200, xhr_json_data = Some data, xhr_json_error = None\<rparr> s))
       = Fulfilled data \<and>
     promise_after 0
       (snd (xhr_load \<lparr>xhr_status = 200, xhr_json_data = None, xhr_json_error = None\<rparr> s))
       = Rejected ''Failed to parse server response'' \<and>
     promise_after 0
       (snd (xhr_load \<lparr>xhr_status = 413, xhr_json_data = None,
                       xhr_json_error = Some \<lparr>detail = Some ''File too large''\<rparr>\<rparr> s))
       = Rejected ''File too large'' \<and>
     promise_after 0
       (snd (xhr_load \<lparr>xhr_status = 502, xhr_json_data = None, xhr_json_error = None\<rparr> s))
       = Rejected ''Upload failed with status 502''"
proof (intro allI)
  fix s data
  have d: "int_digits (int 502) = ''502''" by code_simp
  have e: "detail_or \<lparr>detail = Some ''File too large''\<rparr> ''Upload failed'' = ''File too large''"
    by (simp add: detail_or_def)
  show "promise_after 800
       (snd (xhr_load \<lparr>xhr_status = 200, xhr_json_data = Some data, xhr_json_error = None\<rparr> s))
       = Fulfilled data \<and>
     promise_after 0
       (snd (xhr_load \<lparr>xhr_status = 200, xhr_json_data = None, xhr_json_error = None\<rparr> s))
       = Rejected ''Failed to parse server response'' \<and>
     promise_after 0
       (snd (xhr_load \<lparr>xhr_status = 413, xhr_json_data = None,
                       xhr_json_error = Some \<lparr>detail = Some ''File too large''\<rparr>\<rparr> s))
       = Rejected ''File too large'' \<and>
     promise_after 0
       (snd (xhr_load \<lparr>xhr_status = 502, xhr_json_data = None, xhr_json_error = None\<rparr> s))
       = Rejected ''Upload failed with status 502''"
    using d e
      upload_promise_settles
        [where r = "\<lparr>xhr_status = 200, xhr_json_data = Some data, xhr_json_error = None\<rparr>"
           and data = data and s = s]
      upload_promise_settles
        [where r = "\<lparr>xhr_status = 200, xhr_json_data = None, xhr_json_error = None\<rparr>"
           and s = s]
      upload_promise_settles
        [where r = "\<lparr>xhr_status = 413, xhr_json_data = None,
                      xhr_json_error = Some \<lparr>detail = Some ''File too large''\<rparr>\<rparr>"
           and err = "\<lparr>detail = Some ''File too large''\<rparr>" and s = s]
      upload_promise_settles
        [where r = "\<lparr>xhr_status = 502, xhr_json_data = None, xhr_json_error = None\<rparr>"
           and s = s]
    by simp
qed

lemma fileInput_change_rejected:
  assumes "(file_type f \<notin> set validTypes \<and> \<not> name_matches (file_name f)) \<or> maxSize < file_size f"
  shows "effects (fileInput_change rt (Some f) s) = effects s"
    and "uploadProgress_innerHTML (fileInput_change rt (Some f) s) =
           error_html ''Please select a valid audio file (MP3, WAV, M4A)'' \<or>
         uploadProgress_innerHTML (fileInput_change rt (Some f) s) =
           error_html ''File too large. Maximum size is 100MB.''"
  using assms by (auto simp: fileInput_change_def Let_def)

lemma fileInput_change_accepted:
  assumes "file_type f \<in> set validTypes \<or> name_matches (file_name f)"
    and "file_size f \<le> maxSize"
  shows "effects (fileInput_change rt (Some f) s) =
     effects s @ [XhrSend \<lparr>xhr_method = ''POST'', xhr_url = ''/api/upload'',
                           xhr_timeout = 120000, xhr_form_file = f\<rparr>]"
  using assms
  by (auto simp: fileInput_change_def Let_def handleFileUpload_def uploadFileWithProgress_def)

lemma ends_with_iff: "ends_with suffix s \<longleftrightarrow> (\<exists>stem. s = stem @ suffix)"
proof
  assume "ends_with suffix s"
  then have "s = take (length s - length suffix) s @ suffix"
    by (metis append_take_drop_id ends_with_def)
  then show "\<exists>stem. s = stem @ suffix" ..
next
  assume "\<exists>stem. s = stem @ suffix"
  then show "ends_with suffix s" by (auto simp: ends_with_def)
qed

lemma ends_with_lower:
  "ends_with suffix (map ascii_lower name) \<longleftrightarrow>
     (\<exists>stem ext. name = stem @ ext \<and> map ascii_lower ext = suffix)"
proof
  assume "ends_with suffix (map ascii_lower name)"
  then obtain stem' where eq: "map ascii_lower name = stem' @ suffix"
    unfolding ends_with_iff ..
  then have "map ascii_lower (drop (length stem') name) = suffix"
    by (metis append_eq_conv_conj drop_map)
  moreover have "name = take (length stem') name @ drop (length stem') name" by simp
  ultimately have "name = take (length stem') name @ drop (length stem') name \<and>
      map ascii_lower (drop (length stem') name) = suffix" by (rule conjI [rotated])
  then show "\<exists>stem ext. name = stem @ ext \<and> map ascii_lower ext = suffix"
    by (intro exI)
next
  assume "\<exists>stem ext. name = stem @ ext \<and> map ascii_lower ext = suffix"
  then obtain stem ext where "name = stem @ ext" and "map ascii_lower ext = suffix"
    by (elim exE conjE)
  then have "map ascii_lower name = map ascii_lower stem @ suffix" by simp
  then show "ends_with suffix (map ascii_lower name)"
    unfolding ends_with_iff by (rule exI)
qed

lemma one_of_three:
  "(\<exists>stem ext. P stem ext \<and> g ext = a) \<or> (\<exists>stem ext. P stem ext \<and> g ext = b) \<or>
   (\<exists>stem ext. P stem ext \<and> g ext = c) \<longleftrightarrow>
   (\<exists>stem ext. P stem ext \<and> (g ext = a \<or> g ext = b \<or> g ext = c))"
  by blast

lemma name_matches_iff:
  "name_matches name \<longleftrightarrow>
     (\<exists>stem ext. name = stem @ ext \<and>
        (map ascii_lower ext = ''.mp3'' \<or> map ascii_lower ext = ''.wav'' \<or>
         map ascii_lower ext = ''.m4a''))"
  unfolding name_matches_def Let_def ends_with_lower by (rule one_of_three)

text \<open>
  C4. A selected file is uploaded only if it passes both checks. If its type is none of
  \<^verbatim>\<open>audio/mpeg\<close>, \<^verbatim>\<open>audio/wav\<close>, \<^verbatim>\<open>audio/mp4\<close>, \<^verbatim>\<open>audio/m4a\<close> and its name does not end
  in \<^verbatim>\<open>.mp3\<close>, \<^verbatim>\<open>.wav\<close> or \<^verbatim>\<open>.m4a\<close> in any letter case (\<open>name_matches\<close>, see
  \<open>name_matches_iff\<close>), or if it is larger than \<open>100 * 1024 * 1024\<close> bytes, the client
  shows an error and asks nothing of the network; otherwise it sends the one upload
  request.
\<close>

theorem upload_only_valid_files:
  "validTypes = [''audio/mpeg'', ''audio/wav'', ''audio/mp4'', ''audio/m4a''] \<and>
   maxSize = 104857600 \<and>
   ((file_type f \<notin> set validTypes \<and> \<not> name_matches (file_name f)) \<or> maxSize < file_size f \<longrightarrow>
      requests (fileInput_change rt (Some f) s) = requests s \<and>
      effects (fileInput_change rt (Some f) s) = effects s \<and>
      (uploadProgress_innerHTML (fileInput_change rt (Some f) s) =
         error_html ''Please select a valid audio file (MP3, WAV, M4A)'' \<or>
       uploadProgress_innerHTML (fileInput_change rt (Some f) s) =
         error_html ''File too large. Maximum size is 100MB.'')) \<and>
   ((file_type f \<in> set validTypes \<or> name_matches (file_name f)) \<and> file_size f \<le> maxSize \<longrightarrow>
      effects (fileInput_change rt (Some f) s) =
        effects s @ [XhrSend \<lparr>xhr_method = ''POST'', xhr_url = ''/api/upload'',
                              xhr_timeout = 120000, xhr_form_file = f\<rparr>])"
proof (intro conjI impI)
  show "validTypes = [''audio/mpeg'', ''audio/wav'', ''audio/mp4'', ''audio/m4a'']"
    by (simp add: validTypes_def)
  show "maxSize = 104857600" by (simp add: maxSize_def)
next
  assume bad: "(file_type f \<notin> set validTypes \<and> \<not> name_matches (file_name f)) \<or> maxSize < file_size f"
  show e: "effects (fileInput_change rt (Some f) s) = effects s"
    using bad by (rule fileInput_change_rejected)
  then show "requests (fileInput_change rt (Some f) s) = requests s" by (simp add: requests_def)
  show "uploadProgress_innerHTML (fileInput_change rt (Some f) s) =
         error_html ''Please select a valid audio file (MP3, WAV, M4A)'' \<or>
       uploadProgress_innerHTML (fileInput_change rt (Some f) s) =
         error_html ''File too large. Maximum size is 100MB.''"
    using bad by (rule fileInput_change_rejected)
next
  assume "(file_type f \<in> set validTypes \<or> name_matches (file_name f)) \<and> file_size f \<le> maxSize"
  then show "effects (fileInput_change rt (Some f) s) =
        effects s @ [XhrSend \<lparr>xhr_method = ''POST'', xhr_url = ''/api/upload'',
                              xhr_timeout = 120000, xhr_form_file = f\<rparr>]"
    using fileInput_change_accepted by blast
qed

theorem upload_only_valid_files_witness:
  "\<forall>rt s.
     file_type \<lparr>file_name = ''notes.txt'', file_type = ''text/plain'', file_size = 10\<rparr>
       \<notin> set validTypes \<and>
     \<not> name_matches ''notes.txt'' \<and>
     effects (fileInput_change rt
        (Some \<lparr>file_name = ''notes.txt'', file_type = ''text/plain'', file_size = 10\<rparr>) s)
       = effects s \<and>
     name_matches ''Song.MP3'' \<and>
     effects (fileInput_change rt
        (Some \<lparr>file_name = ''Song.MP3'', file_type = [], file_size = 2048\<rparr>) s)
       = effects s @
         [XhrSend \<lparr>xhr_method = ''POST'', xhr_url = ''/api/upload'', xhr_timeout = 120000,
            xhr_form_file = \<lparr>file_name = ''Song.MP3'', file_type = [], file_size = 2048\<rparr>\<rparr>] \<and>
     effects (fileInput_change rt
        (Some \<lparr>file_name = ''big.wav'', file_type = ''audio/wav'', file_size = 104857601\<rparr>) s)
       = effects s"
proof (intro allI)
  fix rt s
  have a: "''text/plain'' \<notin> set validTypes" by (simp add: validTypes_def)
  have b: "\<not> name_matches ''notes.txt''" by code_simp
  have c: "name_matches ''Song.MP3''" by code_simp
  have d: "(2048::nat) \<le> maxSize" "maxSize < (104857601::nat)" by (simp_all add: maxSize_def)
  show "file_type \<lparr>file_name = ''notes.txt'', file_type = ''text/plain'', file_size = 10\<rparr>
       \<notin> set validTypes \<and>
     \<not> name_matches ''notes.txt'' \<and>
     effects (fileInput_change rt
        (Some \<lparr>file_name = ''notes.txt'', file_type = ''text/plain'', file_size = 10\<rparr>) s)
       = effects s \<and>
     name_matches ''Song.MP3'' \<and>
     effects (fileInput_change rt
        (Some \<lparr>file_name = ''Song.MP3'', file_type = [], file_size = 2048\<rparr>) s)
       = effects s @
         [XhrSend \<lparr>xhr_method = ''POST'', xhr_url = ''/api/upload'', xhr_timeout = 120000,
            xhr_form_file = \<lparr>file_name = ''Song.MP3'', file_type = [], file_size = 2048\<rparr>\<rparr>] \<and>
     effects (fileInput_change rt
        (Some \<lparr>file_name = ''big.wav'', file_type = ''audio/wav'', file_size = 104857601\<rparr>) s)
       = effects s"
    using a b c d
      upload_only_valid_files
        [where f = "\<lparr>file_name = ''notes.txt'', file_type = ''text/plain'', file_size = 10\<rparr>"
           and rt = rt and s = s]
      upload_only_valid_files
        [where f = "\<lparr>file_name = ''Song.MP3'', file_type = [], file_size = 2048\<rparr>"
           and rt = rt and s = s]
      upload_only_valid_files
        [where f = "\<lparr>file_name = ''big.wav'', file_type = ''audio/wav'', file_size = 104857601\<rparr>"
           and rt = rt and s = s]
    by simp
qed

section \<open>The Warp Planner: the anchor is a fixed point\<close>

lemma overlap_empty: "overlap seg a a = 0"
  by (simp add: overlap_def)

lemma stretched_length_empty: "stretched_length curve a a = 0"
  by (induction curve) (simp_all add: stretched_length_def overlap_empty)

text \<open>
  The two ends of the blend: at strength 0 every beat interval keeps its duration, at
  strength 1 every beat interval lasts \<open>60 / target_bpm\<close>.
\<close>

lemma beat_segments_identity:
  "sorted_wrt (<) bs \<Longrightarrow>
   list_all (\<lambda>seg. output_ratio seg = 1) (beat_segments target_duration 0 bs)"
  by (induction target_duration "0::rat" bs rule: beat_segments.induct)
     (auto simp: blended_def)

lemma beat_segments_target:
  "sorted_wrt (<) bs \<Longrightarrow>
   list_all (\<lambda>seg. output_ratio seg * (source_time_end seg - source_time_start seg)
        = target_duration)
     (beat_segments target_duration 1 bs)"
  by (induction target_duration "1::rat" bs rule: beat_segments.induct)
     (auto simp: blended_def)

text \<open>
  C2. For an anchor within \<open>[0, source_duration]\<close> and a positive target tempo, the
  planner returns a curve, and the curve maps the anchor to itself, whatever the beats
  and whatever the strength (which the planner clamps to \<open>[0, 1]\<close>).
\<close>

theorem warp_anchor_fixed_point:
  assumes "0 \<le> anchor_time" and "anchor_time \<le> source_duration" and "0 < target_bpm"
  shows "\<exists>curve. plan_warp bs bpm_estimate target_bpm anchor_time strength source_duration
            = Inr curve \<and> warp curve anchor_time anchor_time = anchor_time"
  using assms by (simp add: plan_warp_def warp_def stretched_length_empty)

theorem warp_anchor_fixed_point_witness:
  "(0::rat) \<le> 1 \<and> (1::rat) \<le> 2 \<and> (0::rat) < 130 \<and>
   plan_warp [0, 1 / 2, 1, 3 / 2] 120 130 1 1 2 =
     Inr [\<lparr>source_time_start = 0, source_time_end = 0, output_ratio = 12 / 13\<rparr>,
          \<lparr>source_time_start = 0, source_time_end = 1 / 2, output_ratio = 12 / 13\<rparr>,
          \<lparr>source_time_start = 1 / 2, source_time_end = 1, output_ratio = 12 / 13\<rparr>,
          \<lparr>source_time_start = 1, source_time_end = 3 / 2, output_ratio = 12 / 13\<rparr>,
          \<lparr>source_time_start = 3 / 2, source_time_end = 2, output_ratio = 12 / 13\<rparr>] \<and>
   (\<exists>curve. plan_warp [0, 1 / 2, 1, 3 / 2] 120 130 1 1 2 = Inr curve \<and> warp curve 1 1 = 1)"
proof -
  have a: "(0::rat) \<le> 1" and b: "(1::rat) \<le> 2" and c: "(0::rat) < 130" by simp_all
  have d: "plan_warp [0, 1 / 2, 1, 3 / 2] 120 130 1 1 2 =
     Inr [\<lparr>source_time_start = 0, source_time_end = 0, output_ratio = 12 / 13\<rparr>,
          \<lparr>source_time_start = 0, source_time_end = 1 / 2, output_ratio = 12 / 13\<rparr>,
          \<lparr>source_time_start = 1 / 2, source_time_end = 1, output_ratio = 12 / 13\<rparr>,
          \<lparr>source_time_start = 1, source_time_end = 3 / 2, output_ratio = 12 / 13\<rparr>,
          \<lparr>source_time_start = 3 / 2, source_time_end = 2, output_ratio = 12 / 13\<rparr>]"
    by (simp add: plan_warp_def plan_segments_def clamp_strength_def blended_def)
  show ?thesis
    using a b c d warp_anchor_fixed_point [OF a b c, of "[0, 1 / 2, 1, 3 / 2]" 120 1]
    by blast
qed

end
